theory Spec2Isabelle
  imports Complex_Main "HOL-Library.Word"
begin

section \<open>The voice client of src/App.tsx\<close>

text \<open>
  The component \<open>App\<close> keeps its data in React state (\<open>useState\<close>) and in mutable
  references (\<open>useRef\<close>), and it talks to the browser and to the remote session through
  host calls. The embedding is a record of the state and the references, and every handler
  of the component is a function on that record. What a handler asks of the host
  (starting and stopping playback units, closing audio contexts, sending a frame, writing
  to the console) is appended to the field \<open>hostCalls\<close>, in the order of the calls.
  What the host tells a handler (the reading of the output clock, the result of a decode,
  how a promise settles) is an argument of the handler.

  JavaScript numbers are modelled as \<open>real\<close>: the clock, the durations and the volume
  estimates are taken as exact.
\<close>

subsection \<open>src/types.ts\<close>

datatype ConnectionState = DISCONNECTED | CONNECTING | CONNECTED | ERROR

datatype Sender = User | Ai | System

text \<open>
  A log entry. Its \<open>id\<close> (from \<open>Math.random\<close>) and its \<open>timestamp\<close> (from
  \<open>new Date\<close>) are not modelled.
\<close>

record LogMessage =
  sender :: Sender
  logText :: string

subsection \<open>Host objects\<close>

datatype JsError = JsError (message: string)

text \<open>
  An awaited promise, given by the way it settles. \<open>await\<close> returns the value of a
  fulfilled promise, throws the reason of a rejected one, and never resumes on one that
  never settles.
\<close>

datatype 'a Promise = Fulfilled 'a | Rejected JsError | NeverSettles

text \<open>
  What an \<open>async\<close> function has done when it stops: it returned, it threw (the error
  leaves the function), or it is suspended for good at an \<open>await\<close>. The state holds the
  effects up to that point.
\<close>

datatype 'a Completion = Returns 'a | Throws JsError 'a | Suspends 'a

fun stateOf :: "'a Completion \<Rightarrow> 'a" where
  "stateOf (Returns s) = s"
| "stateOf (Throws e s) = s"
| "stateOf (Suspends s) = s"

record AudioContext =
  sampleRate :: nat

record MediaStreamTrack =
  enabled :: bool

text \<open>
  The stream asked for with \<open>{ audio: true }\<close>: its tracks are audio tracks, so
  \<open>getTracks()\<close> and \<open>getAudioTracks()\<close> are the same list.
\<close>

type_synonym MediaStream = "MediaStreamTrack list"

record ScriptProcessorNode =
  bufferSize :: nat

record MediaStreamAudioSourceNode =
  mediaStream :: MediaStream

text \<open>
  A decoded buffer with one channel. Its duration is its length over its sample rate, which
  the Web Audio API keeps positive.
\<close>

record AudioBuffer =
  channelData :: "real list"
  bufferSampleRate :: nat

definition duration :: "AudioBuffer \<Rightarrow> real" where
  "duration b = real (length (channelData b)) / real (bufferSampleRate b)"

text \<open>
  A playback unit (\<open>AudioBufferSourceNode\<close>). \<open>nodeId\<close> stands for the identity of the
  object: \<open>audioSourcesRef\<close> is a \<open>Set\<close> of objects.
\<close>

record AudioBufferSourceNode =
  nodeId :: nat
  buffer :: AudioBuffer
  startedAt :: "real option"

record Blob =
  blobData :: string
  mimeType :: string

datatype Session = LiveSession nat

text \<open>
  The calls on host objects that the handlers make and the model records:
  \<open>SourceConnect\<close> for wiring a playback unit to the destination and to its analyser
  (lines 177 to 182), \<open>SourceStart\<close> for \<open>source.start(when)\<close>, \<open>SourceStop\<close> for
  \<open>source.stop()\<close>, \<open>MicGraphConnect\<close> for wiring the microphone source to the
  processor and the processor to the destination (lines 154 and 155),
  \<open>ProcessorDisconnect\<close> and \<open>ProcessorHandlerCleared\<close> for lines 59 and 60,
  \<open>SourceNodeDisconnect\<close> for line 64, \<open>TrackStop\<close> for \<open>track.stop()\<close>,
  \<open>ContextClose\<close> for \<open>close()\<close> of an audio context, \<open>SendRealtimeInput\<close> for
  \<open>session.sendRealtimeInput({ media: pcmBlob })\<close>, \<open>SessionClose\<close> for
  \<open>session.close()\<close> and \<open>ConsoleError\<close> for \<open>console.error\<close>.
\<close>

datatype HostCall =
    SourceConnect nat
  | SourceStart nat real
  | SourceStop nat
  | MicGraphConnect
  | ProcessorDisconnect
  | ProcessorHandlerCleared
  | SourceNodeDisconnect
  | TrackStop MediaStreamTrack
  | ContextClose AudioContext
  | SendRealtimeInput Session Blob
  | SessionClose Session
  | ConsoleError string

text \<open>
  \<open>source.stop()\<close> of the Web Audio API throws \<open>InvalidStateError\<close> on a unit that
  was never started.
\<close>

definition sourceStop :: "AudioBufferSourceNode \<Rightarrow> JsError + HostCall" where
  "sourceStop source =
     (case startedAt source of
        None \<Rightarrow> Inl (JsError ''InvalidStateError'')
      | Some t \<Rightarrow> Inr (SourceStop (nodeId source)))"

subsection \<open>State and references of the component (App.tsx, lines 10 to 27)\<close>

text \<open>
  The five state variables and the references that the handlers use. \<open>audioSourcesRef\<close>
  is a \<open>Set\<close>, kept as the list of its elements in insertion order. Two fields are not
  in the source: \<open>createdSources\<close> counts the playback units created so far and numbers
  the next one, and \<open>hostCalls\<close> is the list of host calls made so far.
\<close>

record App =
  connectionState :: ConnectionState
  logs :: "LogMessage list"
  isMicOn :: bool
  volume :: real
  aiVolume :: real
  inputAudioContextRef :: "AudioContext option"
  outputAudioContextRef :: "AudioContext option"
  mediaStreamRef :: "MediaStream option"
  processorRef :: "ScriptProcessorNode option"
  sourceNodeRef :: "MediaStreamAudioSourceNode option"
  sessionPromiseRef :: "Session Promise option"
  nextStartTimeRef :: real
  audioSourcesRef :: "AudioBufferSourceNode list"
  createdSources :: nat
  hostCalls :: "HostCall list"

definition initialApp :: App where
  "initialApp =
     \<lparr> connectionState = DISCONNECTED, logs = [], isMicOn = True, volume = 0, aiVolume = 0,
       inputAudioContextRef = None, outputAudioContextRef = None, mediaStreamRef = None,
       processorRef = None, sourceNodeRef = None, sessionPromiseRef = None,
       nextStartTimeRef = 0, audioSourcesRef = [], createdSources = 0, hostCalls = [] \<rparr>"

definition addLog :: "string \<Rightarrow> Sender \<Rightarrow> App \<Rightarrow> App" where
  "addLog txt who s = s\<lparr>logs := logs s @ [\<lparr>sender = who, logText = txt\<rparr>]\<rparr>"

definition hostCall :: "HostCall list \<Rightarrow> App \<Rightarrow> App" where
  "hostCall cs s = s\<lparr>hostCalls := hostCalls s @ cs\<rparr>"

subsection \<open>cleanupAudio (App.tsx, lines 50 to 85)\<close>

text \<open>\<open>try { source.stop(); } catch (e) {}\<close>: an error of \<open>stop\<close> is swallowed.\<close>

definition stopQuietly :: "AudioBufferSourceNode \<Rightarrow> App \<Rightarrow> App" where
  "stopQuietly source s =
     (case sourceStop source of Inl e \<Rightarrow> s | Inr c \<Rightarrow> hostCall [c] s)"

definition releaseSources :: "App \<Rightarrow> App" where
  "releaseSources s = (fold stopQuietly (audioSourcesRef s) s)\<lparr>audioSourcesRef := []\<rparr>"

definition releaseProcessor :: "App \<Rightarrow> App" where
  "releaseProcessor s =
     (case processorRef s of
        None \<Rightarrow> s
      | Some p \<Rightarrow> (hostCall [ProcessorDisconnect, ProcessorHandlerCleared] s)\<lparr>processorRef := None\<rparr>)"

definition releaseSourceNode :: "App \<Rightarrow> App" where
  "releaseSourceNode s =
     (case sourceNodeRef s of
        None \<Rightarrow> s
      | Some n \<Rightarrow> (hostCall [SourceNodeDisconnect] s)\<lparr>sourceNodeRef := None\<rparr>)"

definition releaseMediaStream :: "App \<Rightarrow> App" where
  "releaseMediaStream s =
     (case mediaStreamRef s of
        None \<Rightarrow> s
      | Some stream \<Rightarrow> (hostCall (map TrackStop stream) s)\<lparr>mediaStreamRef := None\<rparr>)"

definition closeInputContext :: "App \<Rightarrow> App" where
  "closeInputContext s =
     (case inputAudioContextRef s of
        None \<Rightarrow> s
      | Some c \<Rightarrow> (hostCall [ContextClose c] s)\<lparr>inputAudioContextRef := None\<rparr>)"

definition closeOutputContext :: "App \<Rightarrow> App" where
  "closeOutputContext s =
     (case outputAudioContextRef s of
        None \<Rightarrow> s
      | Some c \<Rightarrow> (hostCall [ContextClose c] s)\<lparr>outputAudioContextRef := None\<rparr>)"

definition cleanupAudio :: "App \<Rightarrow> App" where
  "cleanupAudio s =
     (let s1 = releaseSources s;
          s2 = releaseProcessor s1;
          s3 = releaseSourceNode s2;
          s4 = releaseMediaStream s3;
          s5 = closeInputContext s4;
          s6 = closeOutputContext s5
      in s6\<lparr>volume := 0, aiVolume := 0\<rparr>)"

subsection \<open>connectToGemini (App.tsx, lines 88 to 248)\<close>

text \<open>
  What the host answers during one call of \<open>connectToGemini\<close>: whether each
  \<open>new AudioContext\<close> throws, how the promise of \<open>getUserMedia\<close> settles, whether
  \<open>new GoogleGenAI\<close> throws, and whether \<open>ai.live.connect\<close> throws or returns the
  session promise. The promise is stored and not awaited: its later rejection is no
  exception of this function.
\<close>

record ConnectHost =
  newInputContext :: "JsError option"
  newOutputContext :: "JsError option"
  getUserMedia :: "MediaStream Promise"
  newGoogleGenAI :: "JsError option"
  liveConnect :: "JsError + Session Promise"

text \<open>The \<open>try\<close> block, up to the first statement that throws.\<close>

definition connectTry :: "ConnectHost \<Rightarrow> App \<Rightarrow> App Completion" where
  "connectTry host s =
     (let s1 = addLog ''Initializing audio contexts...'' System (s\<lparr>connectionState := CONNECTING\<rparr>) in
      case newInputContext host of
        Some e \<Rightarrow> Throws e s1
      | None \<Rightarrow>
         (let s2 = s1\<lparr>inputAudioContextRef := Some \<lparr>sampleRate = 16000\<rparr>\<rparr> in
          case newOutputContext host of
            Some e \<Rightarrow> Throws e s2
          | None \<Rightarrow>
             (let s3 = s2\<lparr>outputAudioContextRef := Some \<lparr>sampleRate = 24000\<rparr>\<rparr>;
                  s4 = addLog ''Requesting microphone access...'' System s3 in
              case getUserMedia host of
                Rejected e \<Rightarrow> Throws e s4
              | NeverSettles \<Rightarrow> Suspends s4
              | Fulfilled stream \<Rightarrow>
                 (let s5 = s4\<lparr>mediaStreamRef := Some stream\<rparr> in
                  case newGoogleGenAI host of
                    Some e \<Rightarrow> Throws e s5
                  | None \<Rightarrow>
                     (let s6 = addLog ''Connecting to Gemini Live API...'' System s5 in
                      case liveConnect host of
                        Inl e \<Rightarrow> Throws e s6
                      | Inr sessionPromise \<Rightarrow>
                          Returns (s6\<lparr>sessionPromiseRef := Some sessionPromise\<rparr>))))))"

text \<open>The \<open>catch\<close> block (lines 242 to 247).\<close>

definition connectCatch :: "JsError \<Rightarrow> App \<Rightarrow> App" where
  "connectCatch error s =
     (let s1 = hostCall [ConsoleError (message error)] s;
          s2 = addLog (''Failed to connect: '' @ message error) System s1;
          s3 = s2\<lparr>connectionState := ERROR\<rparr>
      in cleanupAudio s3)"

definition connectToGemini :: "ConnectHost \<Rightarrow> App \<Rightarrow> App Completion" where
  "connectToGemini host s =
     (case connectTry host s of
        Throws error s' \<Rightarrow> Returns (connectCatch error s')
      | Returns s' \<Rightarrow> Returns s'
      | Suspends s' \<Rightarrow> Suspends s')"

subsection \<open>The session callbacks (App.tsx, lines 123 to 236)\<close>

text \<open>
  \<open>onopen\<close>. \<open>now\<close> is \<open>outputCtx.currentTime\<close> and \<open>stream\<close> the microphone stream of
  the enclosing call of \<open>connectToGemini\<close>.
\<close>

definition onopen :: "real \<Rightarrow> MediaStream \<Rightarrow> App \<Rightarrow> App" where
  "onopen now stream s =
     (let s1 = addLog ''Connected! Start speaking to CodeCompanion.'' System s;
          s2 = s1\<lparr>connectionState := CONNECTED\<rparr>;
          s3 = s2\<lparr>nextStartTimeRef := now\<rparr>;
          s4 = s3\<lparr>sourceNodeRef := Some \<lparr>mediaStream = stream\<rparr>\<rparr>;
          s5 = s4\<lparr>processorRef := Some \<lparr>bufferSize = 4096\<rparr>\<rparr>
      in hostCall [MicGraphConnect] s5)"

text \<open>
  \<open>onaudioprocess\<close> (lines 136 to 152). \<open>createBlob\<close> is imported from
  \<open>./utils/audioUtils\<close>, which is not among the sources: it is a parameter. The send
  runs in a \<open>then\<close> of the session promise, so it happens when the promise is fulfilled.
  The processor is created with a buffer of 4096 samples, so a frame is never empty (on an
  empty frame JavaScript would compute \<open>NaN\<close>, where division by zero gives 0 here).
\<close>

definition sumSquares :: "real list \<Rightarrow> real" where
  "sumSquares inputData = fold (\<lambda>x acc. acc + x * x) inputData 0"

definition frameVolume :: "real list \<Rightarrow> real" where
  "frameVolume inputData =
     (let rms = sqrt (sumSquares inputData / real (length inputData)) in rms * 5)"

definition onaudioprocess :: "(real list \<Rightarrow> Blob) \<Rightarrow> real list \<Rightarrow> App \<Rightarrow> App" where
  "onaudioprocess createBlob inputData s =
     (let s1 = s\<lparr>volume := frameVolume inputData\<rparr>;
          pcmBlob = createBlob inputData
      in case sessionPromiseRef s1 of
           None \<Rightarrow> s1
         | Some (Fulfilled session) \<Rightarrow> hostCall [SendRealtimeInput session pcmBlob] s1
         | Some (Rejected e) \<Rightarrow> s1
         | Some NeverSettles \<Rightarrow> s1)"

text \<open>
  An inbound message: \<open>serverContent.modelTurn.parts[0].inlineData.data\<close>,
  \<open>serverContent.turnComplete\<close> and \<open>serverContent.interrupted\<close>.
\<close>

record Message =
  audioData :: "string option"
  turnComplete :: bool
  interrupted :: bool

text \<open>
  What the host answers during one call of \<open>onmessage\<close>: \<open>decodeAudio\<close> stands for
  \<open>decodeAudioData(decode(base64Audio), outputCtx, 24000, 1)\<close> of the missing
  \<open>./utils/audioUtils\<close> (either throws or gives a buffer), \<open>frequencyData\<close> is what
  \<open>getByteFrequencyData\<close> writes, \<open>clockAtArrival\<close> is \<open>outputCtx.currentTime\<close> as read
  on line 165 and \<open>clockAtInterruption\<close> as read on line 223. The \<open>await\<close> of the
  decode resumes before another handler runs.
\<close>

record MessageHost =
  decodeAudio :: "string \<Rightarrow> JsError + AudioBuffer"
  frequencyData :: "nat list"
  clockAtArrival :: real
  clockAtInterruption :: real

text \<open>
  One run of \<open>updateAiVol\<close> (lines 185 to 195), as the handler calls it; the later runs
  on animation frames are not modelled. The analyser has 16 frequency bins.
\<close>

definition updateAiVol :: "nat list \<Rightarrow> App \<Rightarrow> App" where
  "updateAiVol dataArray s =
     (let avg = real (sum_list dataArray) / real (length dataArray)
      in s\<lparr>aiVolume := avg / 128\<rparr>)"

text \<open>
  Lines 175 to 204: the unit is created, wired, started at the cursor and added. The
  cursor is never negative (it starts at 0 and only takes clock readings and sums with
  durations), so \<open>source.start\<close> does not throw.
\<close>

definition scheduleBuffer :: "nat list \<Rightarrow> AudioBuffer \<Rightarrow> App \<Rightarrow> App" where
  "scheduleBuffer dataArray audioBuffer s =
     (let source = \<lparr>nodeId = createdSources s, buffer = audioBuffer, startedAt = None\<rparr>;
          s1 = hostCall [SourceConnect (nodeId source)] (s\<lparr>createdSources := Suc (createdSources s)\<rparr>);
          s2 = updateAiVol dataArray s1;
          started = source\<lparr>startedAt := Some (nextStartTimeRef s2)\<rparr>;
          s3 = hostCall [SourceStart (nodeId source) (nextStartTimeRef s2)] s2;
          s4 = s3\<lparr>nextStartTimeRef := nextStartTimeRef s3 + duration audioBuffer\<rparr>
      in s4\<lparr>audioSourcesRef := audioSourcesRef s4 @ [started]\<rparr>)"

text \<open>
  Lines 159 to 209. An empty string is falsy, so it is skipped as a missing payload is.
  The error of a failed decode goes to \<open>console.error\<close>.
\<close>

definition handleAudioOutput :: "MessageHost \<Rightarrow> Message \<Rightarrow> App \<Rightarrow> App" where
  "handleAudioOutput host msg s =
     (case audioData msg of
        None \<Rightarrow> s
      | Some base64Audio \<Rightarrow>
          if base64Audio = [] then s
          else
            (let s1 = s\<lparr>nextStartTimeRef := max (nextStartTimeRef s) (clockAtArrival host)\<rparr> in
             case decodeAudio host base64Audio of
               Inl err \<Rightarrow> hostCall [ConsoleError (''Error decoding audio: '' @ message err)] s1
             | Inr audioBuffer \<Rightarrow> scheduleBuffer (frequencyData host) audioBuffer s1))"

text \<open>
  Line 221, \<open>audioSourcesRef.current.forEach(source => source.stop())\<close>: here an error of
  \<open>stop\<close> is not caught and ends the handler.
\<close>

fun stopAll :: "AudioBufferSourceNode list \<Rightarrow> App \<Rightarrow> App Completion" where
  "stopAll [] s = Returns s"
| "stopAll (source # rest) s =
     (case sourceStop source of
        Inl e \<Rightarrow> Throws e s
      | Inr c \<Rightarrow> stopAll rest (hostCall [c] s))"

definition handleInterruption :: "MessageHost \<Rightarrow> Message \<Rightarrow> App \<Rightarrow> App Completion" where
  "handleInterruption host msg s =
     (if interrupted msg then
        (let s1 = addLog ''User interrupted AI.'' System s in
         case stopAll (audioSourcesRef s1) s1 of
           Returns s2 \<Rightarrow>
             Returns (s2\<lparr>audioSourcesRef := [], nextStartTimeRef := clockAtInterruption host\<rparr>)
         | Throws e s2 \<Rightarrow> Throws e s2
         | Suspends s2 \<Rightarrow> Suspends s2)
      else Returns s)"

definition onmessage :: "MessageHost \<Rightarrow> Message \<Rightarrow> App \<Rightarrow> App Completion" where
  "onmessage host msg s = handleInterruption host msg (handleAudioOutput host msg s)"

text \<open>The \<open>ended\<close> listener of a playback unit (lines 197 to 200).\<close>

definition onended :: "nat \<Rightarrow> App \<Rightarrow> App" where
  "onended ident s =
     s\<lparr>audioSourcesRef := filter (\<lambda>source. nodeId source \<noteq> ident) (audioSourcesRef s),
       aiVolume := 0\<rparr>"

definition onclose :: "App \<Rightarrow> App" where
  "onclose s =
     cleanupAudio ((addLog ''Session closed.'' System s)\<lparr>connectionState := DISCONNECTED\<rparr>)"

definition onerror :: "JsError \<Rightarrow> App \<Rightarrow> App" where
  "onerror err s =
     (let s1 = hostCall [ConsoleError (message err)] s;
          s2 = addLog (''Error: '' @ (if message err = [] then ''Unknown error'' else message err)) System s1
      in cleanupAudio (s2\<lparr>connectionState := ERROR\<rparr>))"

subsection \<open>handleDisconnect and toggleMic (App.tsx, lines 250 to 273)\<close>

definition handleDisconnect :: "App \<Rightarrow> App Completion" where
  "handleDisconnect s =
     (case sessionPromiseRef s of
        None \<Rightarrow> Returns s
      | Some sessionPromise \<Rightarrow>
         (let s1 = addLog ''Disconnecting...'' System s in
          case sessionPromise of
            Rejected e \<Rightarrow> Throws e s1
          | NeverSettles \<Rightarrow> Suspends s1
          | Fulfilled session \<Rightarrow>
              Returns ((cleanupAudio s1)\<lparr>connectionState := DISCONNECTED, sessionPromiseRef := None\<rparr>)))"

definition toggleMic :: "App \<Rightarrow> App" where
  "toggleMic s =
     (case mediaStreamRef s of
        None \<Rightarrow> s
      | Some stream \<Rightarrow>
         (case stream of
            [] \<Rightarrow> s
          | audioTrack # others \<Rightarrow>
             (let flipped = audioTrack\<lparr>enabled := \<not> enabled audioTrack\<rparr>;
                  s1 = s\<lparr>mediaStreamRef := Some (flipped # others)\<rparr>;
                  s2 = s1\<lparr>isMicOn := enabled flipped\<rparr>
              in addLog (if enabled flipped then ''Microphone unmuted.'' else ''Microphone muted.'')
                   System s2)))"

subsection \<open>Runs of the component\<close>

text \<open>
  A sequence of inbound messages, each with what the host answers while it is handled.
  A handler that throws ends alone: the next message is handled from the state it left.
\<close>

fun runMessages :: "App \<Rightarrow> (MessageHost \<times> Message) list \<Rightarrow> App" where
  "runMessages s [] = s"
| "runMessages s ((host, msg) # rest) = runMessages (stateOf (onmessage host msg s)) rest"

text \<open>The states the component can be in: any handler may run next, with any answer of the host.\<close>

inductive reachable :: "App \<Rightarrow> bool" where
  reach_initial: "reachable initialApp"
| reach_connect: "reachable s \<Longrightarrow> reachable (stateOf (connectToGemini chost s))"
| reach_open: "reachable s \<Longrightarrow> reachable (onopen now stream s)"
| reach_frame: "reachable s \<Longrightarrow> reachable (onaudioprocess createBlob inputData s)"
| reach_message: "reachable s \<Longrightarrow> reachable (stateOf (onmessage mhost msg s))"
| reach_ended: "reachable s \<Longrightarrow> reachable (onended ident s)"
| reach_close: "reachable s \<Longrightarrow> reachable (onclose s)"
| reach_error: "reachable s \<Longrightarrow> reachable (onerror err s)"
| reach_disconnect: "reachable s \<Longrightarrow> reachable (stateOf (handleDisconnect s))"
| reach_toggle: "reachable s \<Longrightarrow> reachable (toggleMic s)"

text \<open>Every unit of the active set has been started.\<close>

definition allStarted :: "App \<Rightarrow> bool" where
  "allStarted s = list_all (\<lambda>source. startedAt source \<noteq> None) (audioSourcesRef s)"


subsection \<open>The PCM encoder and decoder (specification, section 4.1)\<close>

text \<open>
  \<open>createBlob\<close>, \<open>decode\<close> and \<open>decodeAudioData\<close> are imported from
  \<open>./utils/audioUtils\<close>, which is not among the sources. The definitions of this
  subsection follow the words of the specification instead. Samples are \<open>real\<close>; bytes
  are \<open>8 word\<close> and 16-bit samples \<open>16 word\<close>, read as two's complement by \<open>sint\<close>.
\<close>

text \<open>
  Modelled from the spec: the error of \<open>decodeFrame\<close> (missing
  \<open>utils/audioUtils\<close>), "fails with FormatError on malformed base64".
\<close>

datatype FormatError = FormatError

text \<open>
  Modelled from the spec: the first step of \<open>encodeFrame\<close> (missing
  \<open>utils/audioUtils\<close>), "clamps each sample to [-1,1]".
\<close>

definition clampSample :: "real \<Rightarrow> real" where
  "clampSample x = max (- 1) (min 1 x)"

text \<open>
  Modelled from the spec: the second step of \<open>encodeFrame\<close> (missing
  \<open>utils/audioUtils\<close>), "scales to a 16-bit signed integer range". The specification
  names neither the scale factor nor the rounding, so both are parameters; the store into
  16 bits wraps around (\<open>word_of_int\<close>).
\<close>

definition toInt16 :: "(real \<Rightarrow> int) \<Rightarrow> real \<Rightarrow> real \<Rightarrow> 16 word" where
  "toInt16 rnd scale x = word_of_int (rnd (clampSample x * scale))"

text \<open>
  Modelled from the spec: the third step of \<open>encodeFrame\<close> (missing
  \<open>utils/audioUtils\<close>), "packs little-endian": the low byte first.
\<close>

definition packLE :: "16 word \<Rightarrow> 8 word list" where
  "packLE w = [of_nat (unat w mod 256), of_nat (unat w div 256)]"

text \<open>
  Modelled from the spec: the 16-bit sample of two little-endian bytes, for "reinterprets
  raw bytes as 16-bit samples" (missing \<open>utils/audioUtils\<close>).
\<close>

definition unpackLE :: "8 word \<Rightarrow> 8 word \<Rightarrow> 16 word" where
  "unpackLE lo hi = of_nat (unat lo + 256 * unat hi)"

text \<open>
  Modelled from the spec: the "Int16Array equivalent" of a byte buffer (missing
  \<open>utils/audioUtils\<close>); a buffer of odd length has none.
\<close>

fun int16View :: "8 word list \<Rightarrow> 16 word list option" where
  "int16View [] = Some []"
| "int16View [b] = None"
| "int16View (lo # hi # rest) = map_option (\<lambda>ws. unpackLE lo hi # ws) (int16View rest)"

text \<open>
  Modelled from the spec: the alphabet of "base64-encodes" (missing
  \<open>utils/audioUtils\<close>), the standard one of RFC 4648.
\<close>

definition base64Alphabet :: string where
  "base64Alphabet = ''ABCDEFGHIJKLMNOPQRSTUVWXYZabcdefghijklmnopqrstuvwxyz0123456789+/''"

text \<open>Modelled from the spec: the character of a 6-bit value (missing \<open>utils/audioUtils\<close>).\<close>

definition sextetChar :: "nat \<Rightarrow> char" where
  "sextetChar n = base64Alphabet ! n"

text \<open>Modelled from the spec: the position of a character in a string (missing \<open>utils/audioUtils\<close>).\<close>

fun indexOf :: "char \<Rightarrow> string \<Rightarrow> nat option" where
  "indexOf c [] = None"
| "indexOf c (x # xs) = (if c = x then Some 0 else map_option Suc (indexOf c xs))"

text \<open>Modelled from the spec: the 6-bit value of a character (missing \<open>utils/audioUtils\<close>).\<close>

definition charSextet :: "char \<Rightarrow> nat option" where
  "charSextet c = indexOf c base64Alphabet"

text \<open>
  Modelled from the spec: the fourth step of \<open>encodeFrame\<close> (missing
  \<open>utils/audioUtils\<close>), "base64-encodes": three bytes give four characters, and a last
  group of one or two bytes is padded with \<open>=\<close>.
\<close>

fun base64Encode :: "8 word list \<Rightarrow> string" where
  "base64Encode [] = []"
| "base64Encode [a] =
     [sextetChar (unat a div 4), sextetChar (unat a mod 4 * 16), CHR ''='', CHR ''='']"
| "base64Encode [a, b] =
     [sextetChar (unat a div 4), sextetChar (unat a mod 4 * 16 + unat b div 16),
      sextetChar (unat b mod 16 * 4), CHR ''='']"
| "base64Encode (a # b # c # rest) =
     [sextetChar (unat a div 4), sextetChar (unat a mod 4 * 16 + unat b div 16),
      sextetChar (unat b mod 16 * 4 + unat c div 64), sextetChar (unat c mod 64)]
     @ base64Encode rest"

text \<open>
  Modelled from the spec: the bytes of four characters without padding (missing
  \<open>utils/audioUtils\<close>).
\<close>

definition decodeQuad :: "char \<Rightarrow> char \<Rightarrow> char \<Rightarrow> char \<Rightarrow> 8 word list option" where
  "decodeQuad c0 c1 c2 c3 =
     (case (charSextet c0, charSextet c1, charSextet c2, charSextet c3) of
        (Some s0, Some s1, Some s2, Some s3) \<Rightarrow>
          Some [of_nat (s0 * 4 + s1 div 16), of_nat (s1 mod 16 * 16 + s2 div 4),
                of_nat (s2 mod 4 * 64 + s3)]
      | _ \<Rightarrow> None)"

text \<open>
  Modelled from the spec: the bytes of the last four characters, padded or not (missing
  \<open>utils/audioUtils\<close>). Padding bits that are not zero are malformed.
\<close>

definition decodeLast :: "char \<Rightarrow> char \<Rightarrow> char \<Rightarrow> char \<Rightarrow> 8 word list option" where
  "decodeLast c0 c1 c2 c3 =
     (if c3 = CHR ''='' then
        (if c2 = CHR ''='' then
           (case (charSextet c0, charSextet c1) of
              (Some s0, Some s1) \<Rightarrow>
                if s1 mod 16 = 0 then Some [of_nat (s0 * 4 + s1 div 16)] else None
            | _ \<Rightarrow> None)
         else
           (case (charSextet c0, charSextet c1, charSextet c2) of
              (Some s0, Some s1, Some s2) \<Rightarrow>
                if s2 mod 4 = 0
                then Some [of_nat (s0 * 4 + s1 div 16), of_nat (s1 mod 16 * 16 + s2 div 4)]
                else None
            | _ \<Rightarrow> None))
      else decodeQuad c0 c1 c2 c3)"

text \<open>
  Modelled from the spec: the "binary decode" of \<open>decodeFrame\<close> (missing
  \<open>utils/audioUtils\<close>): a character outside the alphabet, padding before the end or a
  length that is not a multiple of four is malformed.
\<close>

fun base64Decode :: "string \<Rightarrow> FormatError + 8 word list" where
  "base64Decode [] = Inr []"
| "base64Decode (c0 # c1 # c2 # c3 # rest) =
     (if rest = [] then
        (case decodeLast c0 c1 c2 c3 of None \<Rightarrow> Inl FormatError | Some bytes \<Rightarrow> Inr bytes)
      else
        (case decodeQuad c0 c1 c2 c3 of
           None \<Rightarrow> Inl FormatError
         | Some bytes \<Rightarrow>
             (case base64Decode rest of
                Inl e \<Rightarrow> Inl e
              | Inr others \<Rightarrow> Inr (bytes @ others))))"
| "base64Decode cs = Inl FormatError"

text \<open>
  Modelled from the spec: \<open>encodeFrame\<close> (the missing \<open>createBlob\<close> of
  \<open>utils/audioUtils\<close>), "clamps each sample to [-1,1], scales to a 16-bit signed
  integer range, packs little-endian, base64-encodes, tags with sample-rate metadata".
\<close>

definition encodeFrame :: "(real \<Rightarrow> int) \<Rightarrow> real \<Rightarrow> real list \<Rightarrow> Blob" where
  "encodeFrame rnd scale samples =
     \<lparr>blobData = base64Encode (concat (map (\<lambda>x. packLE (toInt16 rnd scale x)) samples)),
      mimeType = ''audio/pcm;rate=16000''\<rparr>"

text \<open>
  Modelled from the spec: \<open>decodeFrame\<close> (the missing \<open>decode\<close> of
  \<open>utils/audioUtils\<close>), "inverse of the base64 step only (binary decode); fails with
  FormatError on malformed base64".
\<close>

definition decodeFrame :: "string \<Rightarrow> FormatError + 8 word list" where
  "decodeFrame base64 = base64Decode base64"

subsection \<open>Example inputs\<close>

text \<open>
  A decoded buffer of one second at 24 kHz, a host whose output clock reads \<open>t\<close> and
  whose decoder accepts the payload \<open>AAAA\<close> only, and five messages.
\<close>

definition oneSecond :: AudioBuffer where
  "oneSecond = \<lparr>channelData = replicate 24000 0, bufferSampleRate = 24000\<rparr>"

definition hostAt :: "real \<Rightarrow> MessageHost" where
  "hostAt t =
     \<lparr>decodeAudio = (\<lambda>b. if b = ''AAAA'' then Inr oneSecond else Inl (JsError ''malformed'')),
      frequencyData = replicate 16 0, clockAtArrival = t, clockAtInterruption = t\<rparr>"

definition audioMsg :: Message where
  "audioMsg = \<lparr>audioData = Some ''AAAA'', turnComplete = False, interrupted = False\<rparr>"

definition corruptMsg :: Message where
  "corruptMsg = \<lparr>audioData = Some ''!!!!'', turnComplete = False, interrupted = False\<rparr>"

definition turnCompleteMsg :: Message where
  "turnCompleteMsg = \<lparr>audioData = None, turnComplete = True, interrupted = False\<rparr>"

definition interruptMsg :: Message where
  "interruptMsg = \<lparr>audioData = None, turnComplete = False, interrupted = True\<rparr>"

definition audioInterruptMsg :: Message where
  "audioInterruptMsg = \<lparr>audioData = Some ''AAAA'', turnComplete = False, interrupted = True\<rparr>"

text \<open>
  A session that has just opened with the output clock at 0, and the same session with two
  buffers scheduled one after the other.
\<close>

definition openSession :: App where
  "openSession = onopen 0 [\<lparr>enabled = True\<rparr>] initialApp"

definition twoPlaying :: App where
  "twoPlaying = runMessages openSession [(hostAt 0, audioMsg), (hostAt 0, audioMsg)]"

text \<open>
  Hosts for \<open>connectToGemini\<close>: one where every step succeeds, one where the user
  denies the microphone, and one where \<open>ai.live.connect\<close> returns a promise that is
  rejected (the session cannot be opened). \<open>connectedApp\<close> is connected with a fulfilled
  session promise.
\<close>

definition okHost :: ConnectHost where
  "okHost =
     \<lparr>newInputContext = None, newOutputContext = None,
      getUserMedia = Fulfilled [\<lparr>enabled = True\<rparr>],
      newGoogleGenAI = None, liveConnect = Inr (Fulfilled (LiveSession 0))\<rparr>"

definition deniedHost :: ConnectHost where
  "deniedHost = okHost\<lparr>getUserMedia := Rejected (JsError ''Permission denied'')\<rparr>"

definition connectedApp :: App where
  "connectedApp =
     onopen 0 [\<lparr>enabled = True\<rparr>] (stateOf (connectToGemini okHost initialApp))"

definition rejectingHost :: ConnectHost where
  "rejectingHost = okHost\<lparr>liveConnect := Inr (Rejected (JsError ''WebSocket closed''))\<rparr>"

text \<open>A \<open>createBlob\<close> for the examples, which ignores the samples.\<close>

definition mutedFrameBlob :: "real list \<Rightarrow> Blob" where
  "mutedFrameBlob inputData = \<lparr>blobData = [], mimeType = ''audio/pcm;rate=16000''\<rparr>"

text \<open>
  Rounding towards zero, as a store of a number into an \<open>Int16Array\<close> rounds, and four
  samples.
\<close>

definition towardZero :: "real \<Rightarrow> int" where
  "towardZero y = (if y < 0 then \<lceil>y\<rceil> else \<lfloor>y\<rfloor>)"

definition demoSamples :: "real list" where
  "demoSamples = [0, 1, - 1, 1 / 2]"

section \<open>Properties\<close>

subsection \<open>Resource release\<close>

lemma stopQuietly_apply:
  "stopQuietly x s =
     (if startedAt x = None then s else hostCall [SourceStop (nodeId x)] s)"
  by (cases "startedAt x") (simp_all add: stopQuietly_def sourceStop_def)

lemma fold_stopQuietly:
  "fold stopQuietly xs s =
     hostCall (map (\<lambda>u. SourceStop (nodeId u)) (filter (\<lambda>u. startedAt u \<noteq> None) xs)) s"
proof (induction xs arbitrary: s)
  case Nil
  show ?case by (simp add: hostCall_def)
next
  case (Cons x xs)
  have "fold stopQuietly (x # xs) s = fold stopQuietly xs (stopQuietly x s)"
    by simp
  also have "\<dots> = hostCall (map (\<lambda>u. SourceStop (nodeId u))
      (filter (\<lambda>u. startedAt u \<noteq> None) xs)) (stopQuietly x s)"
    by (rule Cons.IH)
  also have "\<dots> = hostCall (map (\<lambda>u. SourceStop (nodeId u))
      (filter (\<lambda>u. startedAt u \<noteq> None) (x # xs))) s"
    using stopQuietly_apply [of x s] by (cases "startedAt x") (simp_all add: hostCall_def)
  finally show ?case .
qed

lemma releaseSources_eq:
  "releaseSources s =
     s\<lparr>hostCalls := hostCalls s
          @ map (\<lambda>u. SourceStop (nodeId u)) (filter (\<lambda>u. startedAt u \<noteq> None) (audioSourcesRef s)),
       audioSourcesRef := []\<rparr>"
  by (simp add: releaseSources_def fold_stopQuietly hostCall_def)

lemma releaseProcessor_eq:
  "releaseProcessor s =
     s\<lparr>hostCalls := hostCalls s
          @ (case processorRef s of None \<Rightarrow> [] | Some p \<Rightarrow> [ProcessorDisconnect, ProcessorHandlerCleared]),
       processorRef := None\<rparr>"
  by (cases "processorRef s") (simp_all add: releaseProcessor_def hostCall_def)

lemma releaseSourceNode_eq:
  "releaseSourceNode s =
     s\<lparr>hostCalls := hostCalls s
          @ (case sourceNodeRef s of None \<Rightarrow> [] | Some n \<Rightarrow> [SourceNodeDisconnect]),
       sourceNodeRef := None\<rparr>"
  by (cases "sourceNodeRef s") (simp_all add: releaseSourceNode_def hostCall_def)

lemma releaseMediaStream_eq:
  "releaseMediaStream s =
     s\<lparr>hostCalls := hostCalls s
          @ (case mediaStreamRef s of None \<Rightarrow> [] | Some stream \<Rightarrow> map TrackStop stream),
       mediaStreamRef := None\<rparr>"
  by (cases "mediaStreamRef s") (simp_all add: releaseMediaStream_def hostCall_def)

lemma closeInputContext_eq:
  "closeInputContext s =
     s\<lparr>hostCalls := hostCalls s
          @ (case inputAudioContextRef s of None \<Rightarrow> [] | Some c \<Rightarrow> [ContextClose c]),
       inputAudioContextRef := None\<rparr>"
  by (cases "inputAudioContextRef s") (simp_all add: closeInputContext_def hostCall_def)

lemma closeOutputContext_eq:
  "closeOutputContext s =
     s\<lparr>hostCalls := hostCalls s
          @ (case outputAudioContextRef s of None \<Rightarrow> [] | Some c \<Rightarrow> [ContextClose c]),
       outputAudioContextRef := None\<rparr>"
  by (cases "outputAudioContextRef s") (simp_all add: closeOutputContext_def hostCall_def)

lemma cleanupAudio_eq:
  "cleanupAudio s =
     s\<lparr>hostCalls := hostCalls s
          @ map (\<lambda>u. SourceStop (nodeId u)) (filter (\<lambda>u. startedAt u \<noteq> None) (audioSourcesRef s))
          @ (case processorRef s of None \<Rightarrow> [] | Some p \<Rightarrow> [ProcessorDisconnect, ProcessorHandlerCleared])
          @ (case sourceNodeRef s of None \<Rightarrow> [] | Some n \<Rightarrow> [SourceNodeDisconnect])
          @ (case mediaStreamRef s of None \<Rightarrow> [] | Some stream \<Rightarrow> map TrackStop stream)
          @ (case inputAudioContextRef s of None \<Rightarrow> [] | Some c \<Rightarrow> [ContextClose c])
          @ (case outputAudioContextRef s of None \<Rightarrow> [] | Some c \<Rightarrow> [ContextClose c]),
       audioSourcesRef := [], processorRef := None, sourceNodeRef := None,
       mediaStreamRef := None, inputAudioContextRef := None, outputAudioContextRef := None,
       volume := 0, aiVolume := 0\<rparr>"
  by (simp add: cleanupAudio_def Let_def releaseSources_eq releaseProcessor_eq
      releaseSourceNode_eq releaseMediaStream_eq closeInputContext_eq closeOutputContext_eq)

lemma cleanupAudio_sources: "audioSourcesRef (cleanupAudio s) = []"
  by (simp add: cleanupAudio_eq)



text \<open>
  Claim C5. Resource release is idempotent and total: from any state, a second call of
  \<open>cleanupAudio\<close> changes nothing (it makes no host call either), the function has no
  path that throws (an error of \<open>source.stop()\<close> is swallowed), both volume indicators
  are zero afterwards, every reference to an audio resource is null and the active set is
  empty, and the host calls made are exactly the stops, disconnects and closes of what the
  references held.
\<close>

theorem cleanupAudio_idempotent_total:
  "cleanupAudio (cleanupAudio s) = cleanupAudio s
   \<and> volume (cleanupAudio s) = 0 \<and> aiVolume (cleanupAudio s) = 0
   \<and> audioSourcesRef (cleanupAudio s) = []
   \<and> processorRef (cleanupAudio s) = None
   \<and> sourceNodeRef (cleanupAudio s) = None
   \<and> mediaStreamRef (cleanupAudio s) = None
   \<and> inputAudioContextRef (cleanupAudio s) = None
   \<and> outputAudioContextRef (cleanupAudio s) = None
   \<and> hostCalls (cleanupAudio s) =
       hostCalls s
       @ map (\<lambda>u. SourceStop (nodeId u)) (filter (\<lambda>u. startedAt u \<noteq> None) (audioSourcesRef s))
       @ (case processorRef s of None \<Rightarrow> [] | Some p \<Rightarrow> [ProcessorDisconnect, ProcessorHandlerCleared])
       @ (case sourceNodeRef s of None \<Rightarrow> [] | Some n \<Rightarrow> [SourceNodeDisconnect])
       @ (case mediaStreamRef s of None \<Rightarrow> [] | Some stream \<Rightarrow> map TrackStop stream)
       @ (case inputAudioContextRef s of None \<Rightarrow> [] | Some c \<Rightarrow> [ContextClose c])
       @ (case outputAudioContextRef s of None \<Rightarrow> [] | Some c \<Rightarrow> [ContextClose c])"
proof -
  have idem: "cleanupAudio (cleanupAudio s) = cleanupAudio s"
    by (subst (1) cleanupAudio_eq) (simp add: cleanupAudio_eq)
  show ?thesis
    using idem by (simp add: cleanupAudio_eq)
qed

subsection \<open>Every unit of the active set has been started\<close>

lemma stopAll_started:
  "list_all (\<lambda>u. startedAt u \<noteq> None) xs \<Longrightarrow>
     stopAll xs s = Returns (hostCall (map (\<lambda>u. SourceStop (nodeId u)) xs) s)"
proof (induction xs arbitrary: s)
  case Nil
  show ?case by (simp add: hostCall_def)
next
  case (Cons x xs)
  then obtain t where t: "startedAt x = Some t" by auto
  from Cons.prems have rest: "list_all (\<lambda>u. startedAt u \<noteq> None) xs" by simp
  show ?case
    by (simp add: sourceStop_def t Cons.IH [OF rest] hostCall_def)
qed

lemma stopAll_sources:
  "audioSourcesRef (stateOf (stopAll xs s)) = audioSourcesRef s"
  by (induction xs arbitrary: s) (simp_all add: hostCall_def split: sum.splits)

lemma stopAll_cursor:
  "nextStartTimeRef (stateOf (stopAll xs s)) = nextStartTimeRef s"
  by (induction xs arbitrary: s) (simp_all add: hostCall_def split: sum.splits)

lemma scheduleBuffer_sources:
  "audioSourcesRef (scheduleBuffer d b s) =
     audioSourcesRef s @
       [\<lparr>nodeId = createdSources s, buffer = b, startedAt = Some (nextStartTimeRef s)\<rparr>]"
  by (simp add: scheduleBuffer_def Let_def hostCall_def updateAiVol_def)

lemma handleAudioOutput_allStarted:
  "allStarted s \<Longrightarrow> allStarted (handleAudioOutput host msg s)"
  by (simp add: handleAudioOutput_def allStarted_def Let_def scheduleBuffer_sources hostCall_def
      split: option.splits sum.splits)

lemma handleInterruption_allStarted:
  "allStarted s \<Longrightarrow> allStarted (stateOf (handleInterruption host msg s))"
proof (cases "interrupted msg")
  case False
  assume "allStarted s"
  with False show ?thesis by (simp add: handleInterruption_def)
next
  case True
  assume a: "allStarted s"
  then have l: "list_all (\<lambda>u. startedAt u \<noteq> None) (audioSourcesRef (addLog ''User interrupted AI.'' System s))"
    by (simp add: allStarted_def addLog_def)
  show ?thesis
    using True by (simp add: handleInterruption_def Let_def stopAll_started [OF l] allStarted_def)
qed

lemma connectTry_sources:
  "audioSourcesRef (stateOf (connectTry host s)) = audioSourcesRef s"
  by (simp add: connectTry_def Let_def addLog_def split: option.splits Promise.splits sum.splits)

lemma connectToGemini_allStarted:
  "allStarted s \<Longrightarrow> allStarted (stateOf (connectToGemini host s))"
proof -
  assume a: "allStarted s"
  show ?thesis
  proof (cases "connectTry host s")
    case (Returns s')
    with connectTry_sources [of host s] a show ?thesis
      by (simp add: connectToGemini_def allStarted_def)
  next
    case (Throws e s')
    then show ?thesis
      by (simp add: connectToGemini_def connectCatch_def Let_def allStarted_def cleanupAudio_sources)
  next
    case (Suspends s')
    with connectTry_sources [of host s] a show ?thesis
      by (simp add: connectToGemini_def allStarted_def)
  qed
qed

lemma handleDisconnect_allStarted:
  "allStarted s \<Longrightarrow> allStarted (stateOf (handleDisconnect s))"
  by (simp add: handleDisconnect_def Let_def allStarted_def cleanupAudio_sources addLog_def
      split: option.splits Promise.splits)

lemma reachable_allStarted: "reachable s \<Longrightarrow> allStarted s"
proof (induction rule: reachable.induct)
  case reach_initial
  show ?case by (simp add: allStarted_def initialApp_def)
next
  case (reach_connect s chost)
  then show ?case by (simp add: connectToGemini_allStarted)
next
  case (reach_open s now stream)
  then show ?case by (simp add: onopen_def Let_def allStarted_def hostCall_def addLog_def)
next
  case (reach_frame s createBlob inputData)
  then show ?case
    by (simp add: onaudioprocess_def Let_def allStarted_def hostCall_def
        split: option.splits Promise.splits)
next
  case (reach_message s mhost msg)
  then show ?case
    by (simp add: onmessage_def handleInterruption_allStarted handleAudioOutput_allStarted)
next
  case (reach_ended s ident)
  then show ?case by (simp add: onended_def allStarted_def list_all_iff)
next
  case (reach_close s)
  show ?case by (simp add: onclose_def allStarted_def cleanupAudio_sources)
next
  case (reach_error s err)
  show ?case by (simp add: onerror_def Let_def allStarted_def cleanupAudio_sources)
next
  case (reach_disconnect s)
  then show ?case by (simp add: handleDisconnect_allStarted)
next
  case (reach_toggle s)
  then show ?case
    by (simp add: toggleMic_def Let_def allStarted_def addLog_def split: option.splits list.splits)
qed

subsection \<open>The playback scheduler\<close>

lemma duration_oneSecond: "duration oneSecond = 1"
  by (simp add: duration_def oneSecond_def)

lemma duration_nonneg: "0 \<le> duration b"
  by (simp add: duration_def)

lemma onmessage_not_interrupted:
  "\<not> interrupted msg \<Longrightarrow> onmessage host msg s = Returns (handleAudioOutput host msg s)"
  by (simp add: onmessage_def handleInterruption_def)

lemma handleAudioOutput_decoded:
  assumes "audioData msg = Some b" and "b \<noteq> []" and "decodeAudio host b = Inr buf"
  shows "handleAudioOutput host msg s =
     s\<lparr>nextStartTimeRef := max (nextStartTimeRef s) (clockAtArrival host) + duration buf,
       audioSourcesRef := audioSourcesRef s @
         [\<lparr>nodeId = createdSources s, buffer = buf,
           startedAt = Some (max (nextStartTimeRef s) (clockAtArrival host))\<rparr>],
       createdSources := Suc (createdSources s),
       aiVolume := real (sum_list (frequencyData host)) / real (length (frequencyData host)) / 128,
       hostCalls := hostCalls s @
         [SourceConnect (createdSources s),
          SourceStart (createdSources s) (max (nextStartTimeRef s) (clockAtArrival host))]\<rparr>"
  using assms
  by (simp add: handleAudioOutput_def scheduleBuffer_def updateAiVol_def hostCall_def Let_def)

lemma handleAudioOutput_failed:
  assumes "audioData msg = Some b" and "b \<noteq> []" and "decodeAudio host b = Inl err"
  shows "handleAudioOutput host msg s =
     s\<lparr>nextStartTimeRef := max (nextStartTimeRef s) (clockAtArrival host),
       hostCalls := hostCalls s @ [ConsoleError (''Error decoding audio: '' @ message err)]\<rparr>"
  using assms by (simp add: handleAudioOutput_def hostCall_def Let_def)

lemma handleAudioOutput_cursor_mono:
  "nextStartTimeRef s \<le> nextStartTimeRef (handleAudioOutput host msg s)"
proof -
  have "0 \<le> duration b" for b by (rule duration_nonneg)
  then show ?thesis
    by (auto simp add: handleAudioOutput_def scheduleBuffer_def updateAiVol_def hostCall_def Let_def
        add_increasing2 max.coboundedI1 split: option.splits sum.splits)
qed

lemma handleAudioOutput_cursor_clock:
  assumes "audioData msg = Some b" and "b \<noteq> []"
  shows "clockAtArrival host \<le> nextStartTimeRef (handleAudioOutput host msg s)"
proof (cases "decodeAudio host b")
  case (Inl err)
  show ?thesis by (simp add: handleAudioOutput_failed [OF assms Inl])
next
  case (Inr buf)
  have "0 \<le> duration buf" by (rule duration_nonneg)
  then show ?thesis by (simp add: handleAudioOutput_decoded [OF assms Inr] add_increasing2 max.coboundedI2)
qed

lemma runMessages_append:
  "runMessages s (xs @ ys) = runMessages (runMessages s xs) ys"
  by (induction xs arbitrary: s) auto

lemma runMessages_cursor_mono:
  "list_all (\<lambda>(h, m). \<not> interrupted m) arrivals \<Longrightarrow>
     nextStartTimeRef s \<le> nextStartTimeRef (runMessages s arrivals)"
proof (induction arrivals arbitrary: s)
  case Nil
  show ?case by simp
next
  case (Cons a arrivals)
  obtain h m where a: "a = (h, m)" by (cases a)
  from Cons.prems a have ni: "\<not> interrupted m"
    and rest: "list_all (\<lambda>(h, m). \<not> interrupted m) arrivals" by simp_all
  have "nextStartTimeRef s \<le> nextStartTimeRef (handleAudioOutput h m s)"
    by (rule handleAudioOutput_cursor_mono)
  also have "\<dots> \<le> nextStartTimeRef (runMessages (handleAudioOutput h m s) arrivals)"
    by (rule Cons.IH [OF rest])
  finally show ?case
    by (simp add: a onmessage_not_interrupted [OF ni])
qed

lemma hostAt_decode: "decodeAudio (hostAt t) ''AAAA'' = Inr oneSecond"
  by (simp add: hostAt_def)

lemma audioMsg_data: "audioData audioMsg = Some ''AAAA''"
  by (simp add: audioMsg_def)

lemma openSession_eval:
  "nextStartTimeRef openSession = 0 \<and> audioSourcesRef openSession = []
   \<and> createdSources openSession = 0"
  by (simp add: openSession_def onopen_def initialApp_def Let_def addLog_def hostCall_def)

lemma reachable_twoPlaying: "reachable twoPlaying"
  unfolding twoPlaying_def openSession_def runMessages.simps
  by (intro reach_message reach_open reach_initial)

lemma twoPlaying_eval:
  "audioSourcesRef twoPlaying =
     [\<lparr>nodeId = 0, buffer = oneSecond, startedAt = Some 0\<rparr>,
      \<lparr>nodeId = 1, buffer = oneSecond, startedAt = Some 1\<rparr>]
   \<and> nextStartTimeRef twoPlaying = 2"
proof -
  have ni: "\<not> interrupted audioMsg" by (simp add: audioMsg_def)
  have ne: "''AAAA'' \<noteq> []" by simp
  have clock: "clockAtArrival (hostAt 0) = 0" by (simp add: hostAt_def)
  show ?thesis
    by (simp add: twoPlaying_def onmessage_not_interrupted [OF ni]
        handleAudioOutput_decoded [OF audioMsg_data ne hostAt_decode]
        clock duration_oneSecond openSession_eval)
qed

text \<open>
  Claim C1, amended. For a message whose payload decodes, the cursor is set to the maximum
  of the cursor and the output clock, the unit is started exactly at that value, the cursor
  is advanced by the duration of the buffer, and the unit is added to the active set. For
  two such messages in a row, with no interruption in the first, the second unit starts at
  \<open>max (max t c1 + d1) c2\<close>, where \<open>t\<close> is the cursor before the first and \<open>c1\<close>,
  \<open>c2\<close> are the clock readings at the two arrivals; this is \<open>t + d1\<close> when the clock has
  not passed the cursor at either arrival (\<open>c1 \<le> t\<close> and \<open>c2 \<le> t + d1\<close>).
\<close>

theorem gapless_schedule:
  assumes "audioData m1 = Some b1" and "b1 \<noteq> []" and "decodeAudio h1 b1 = Inr buf1"
    and "\<not> interrupted m1"
    and "audioData m2 = Some b2" and "b2 \<noteq> []" and "decodeAudio h2 b2 = Inr buf2"
  shows "onmessage h1 m1 s = Returns (handleAudioOutput h1 m1 s)
    \<and> nextStartTimeRef (handleAudioOutput h1 m1 s) =
        max (nextStartTimeRef s) (clockAtArrival h1) + duration buf1
    \<and> audioSourcesRef (handleAudioOutput h2 m2 (handleAudioOutput h1 m1 s)) =
        audioSourcesRef s @
          [\<lparr>nodeId = createdSources s, buffer = buf1,
             startedAt = Some (max (nextStartTimeRef s) (clockAtArrival h1))\<rparr>,
           \<lparr>nodeId = Suc (createdSources s), buffer = buf2,
             startedAt = Some (max (max (nextStartTimeRef s) (clockAtArrival h1) + duration buf1)
                                   (clockAtArrival h2))\<rparr>]
    \<and> hostCalls (handleAudioOutput h2 m2 (handleAudioOutput h1 m1 s)) =
        hostCalls s @
          [SourceConnect (createdSources s),
           SourceStart (createdSources s) (max (nextStartTimeRef s) (clockAtArrival h1)),
           SourceConnect (Suc (createdSources s)),
           SourceStart (Suc (createdSources s))
             (max (max (nextStartTimeRef s) (clockAtArrival h1) + duration buf1) (clockAtArrival h2))]
    \<and> nextStartTimeRef (handleAudioOutput h2 m2 (handleAudioOutput h1 m1 s)) =
        max (max (nextStartTimeRef s) (clockAtArrival h1) + duration buf1) (clockAtArrival h2)
          + duration buf2
    \<and> (clockAtArrival h1 \<le> nextStartTimeRef s
         \<and> clockAtArrival h2 \<le> nextStartTimeRef s + duration buf1 \<longrightarrow>
        map startedAt (audioSourcesRef (handleAudioOutput h2 m2 (handleAudioOutput h1 m1 s))) =
          map startedAt (audioSourcesRef s)
            @ [Some (nextStartTimeRef s), Some (nextStartTimeRef s + duration buf1)])"
proof -
  note first = handleAudioOutput_decoded [OF assms(1,2,3)]
  note second = handleAudioOutput_decoded [OF assms(5,6,7)]
  show ?thesis
    by (simp add: onmessage_not_interrupted [OF assms(4)] first second max_absorb1)
qed

theorem gapless_schedule_witness:
  "map startedAt (audioSourcesRef
      (handleAudioOutput (hostAt (1/2)) audioMsg (handleAudioOutput (hostAt 0) audioMsg openSession)))
    = [Some 0, Some 1]
   \<and> onmessage (hostAt 0) audioMsg openSession = Returns (handleAudioOutput (hostAt 0) audioMsg openSession)"
proof -
  have ni: "\<not> interrupted audioMsg" by (simp add: audioMsg_def)
  have ne: "''AAAA'' \<noteq> []" by simp
  have c: "clockAtArrival (hostAt 0) = 0" "clockAtArrival (hostAt (1/2)) = 1/2"
    by (simp_all add: hostAt_def)
  from gapless_schedule [OF audioMsg_data ne hostAt_decode [of 0] ni
      audioMsg_data ne hostAt_decode [of "1/2"], where s = openSession]
  show ?thesis
    by (simp add: c openSession_eval duration_oneSecond)
qed

text \<open>
  Without the condition on the clock the second start is not \<open>t + d1\<close>: the session
  opens with the cursor at 0, the first buffer arrives when the clock reads 5, and the two
  units start at 5 and 6, not at 0 and 1.
\<close>

theorem gapless_late_clock_counterexample:
  "nextStartTimeRef openSession = 0 \<and> duration oneSecond = 1 \<and> \<not> interrupted audioMsg
   \<and> decodeAudio (hostAt 5) ''AAAA'' = Inr oneSecond \<and> audioData audioMsg = Some ''AAAA''
   \<and> map startedAt (audioSourcesRef
        (handleAudioOutput (hostAt 5) audioMsg (stateOf (onmessage (hostAt 5) audioMsg openSession))))
      = [Some 5, Some 6]
   \<and> (6::real) \<noteq> nextStartTimeRef openSession + duration oneSecond"
proof -
  have ni: "\<not> interrupted audioMsg" by (simp add: audioMsg_def)
  have ne: "''AAAA'' \<noteq> []" by simp
  have c: "clockAtArrival (hostAt 5) = 5" by (simp add: hostAt_def)
  show ?thesis
    by (simp add: ni c openSession_eval duration_oneSecond hostAt_decode audioMsg_data
        onmessage_not_interrupted [OF ni]
        handleAudioOutput_decoded [OF audioMsg_data ne hostAt_decode])
qed

text \<open>
  Claim C2. When a message carries the interruption signal, the handler returns, and
  right after it the active playback set is empty and the playback cursor equals the
  reading of the output clock (line 223), however many units were scheduled; every unit of
  the active set, the one scheduled by this same message included, has been stopped.
\<close>

theorem interruption_clears_playback:
  assumes "reachable s" and "interrupted msg"
  shows "\<exists>s'. onmessage host msg s = Returns s'
           \<and> audioSourcesRef s' = []
           \<and> nextStartTimeRef s' = clockAtInterruption host
           \<and> hostCalls s' =
               hostCalls (handleAudioOutput host msg s)
               @ map (\<lambda>u. SourceStop (nodeId u)) (audioSourcesRef (handleAudioOutput host msg s))"
proof -
  let ?a = "handleAudioOutput host msg s"
  have "allStarted ?a"
    using assms(1) by (simp add: reachable_allStarted handleAudioOutput_allStarted)
  then have l: "list_all (\<lambda>u. startedAt u \<noteq> None) (audioSourcesRef ?a)"
    by (simp add: allStarted_def)
  show ?thesis
    using assms(2) l
    by (simp add: onmessage_def handleInterruption_def Let_def stopAll_started
        hostCall_def addLog_def)
qed

theorem interruption_clears_playback_witness:
  "length (audioSourcesRef twoPlaying) = 2
   \<and> (\<exists>s'. onmessage (hostAt 5) interruptMsg twoPlaying = Returns s'
         \<and> audioSourcesRef s' = [] \<and> nextStartTimeRef s' = 5)"
proof -
  have i: "interrupted interruptMsg" by (simp add: interruptMsg_def)
  have c: "clockAtInterruption (hostAt 5) = 5" by (simp add: hostAt_def)
  from interruption_clears_playback [OF reachable_twoPlaying i, of "hostAt 5"] c
  show ?thesis by (auto simp add: twoPlaying_eval)
qed

lemma onmessage_cursor_clock:
  assumes "audioData m = Some b" and "b \<noteq> []"
    and "interrupted m \<longrightarrow> clockAtArrival h \<le> clockAtInterruption h"
  shows "clockAtArrival h \<le> nextStartTimeRef (stateOf (onmessage h m s))"
proof (cases "interrupted m")
  case False
  then show ?thesis
    by (simp add: onmessage_not_interrupted handleAudioOutput_cursor_clock [OF assms(1,2)])
next
  case True
  let ?a = "addLog ''User interrupted AI.'' System (handleAudioOutput h m s)"
  have a: "clockAtArrival h \<le> nextStartTimeRef ?a"
    using handleAudioOutput_cursor_clock [OF assms(1,2), of h s] by (simp add: addLog_def)
  have k: "nextStartTimeRef (stateOf (stopAll (audioSourcesRef ?a) ?a)) = nextStartTimeRef ?a"
    by (rule stopAll_cursor)
  show ?thesis
  proof (cases "stopAll (audioSourcesRef ?a) ?a")
    case (Returns s2)
    with True assms(3) show ?thesis
      by (simp add: onmessage_def handleInterruption_def Let_def)
  next
    case (Throws e s2)
    with True a k show ?thesis
      by (simp add: onmessage_def handleInterruption_def Let_def)
  next
    case (Suspends s2)
    with True a k show ?thesis
      by (simp add: onmessage_def handleInterruption_def Let_def)
  qed
qed

text \<open>
  Claim C3, amended. Over any sequence of inbound messages, the cursor does not decrease
  across a stretch of messages that carry no interruption signal; and right after a message
  with an audio payload has been handled, the cursor is at least the reading of the output
  clock at its arrival (line 165). For a message that also carries the interruption signal
  the second part needs that the output clock has not run backwards between the reading at
  arrival and the reading of line 223, to which the cursor is then reset.
\<close>

theorem cursor_monotone_between_interruptions:
  assumes "list_all (\<lambda>(h, m). \<not> interrupted m) later"
  shows "nextStartTimeRef (runMessages s earlier)
           \<le> nextStartTimeRef (runMessages s (earlier @ later))
    \<and> (\<forall>h m b. audioData m = Some b \<and> b \<noteq> []
           \<and> (interrupted m \<longrightarrow> clockAtArrival h \<le> clockAtInterruption h) \<longrightarrow>
          clockAtArrival h \<le> nextStartTimeRef (runMessages s (earlier @ [(h, m)])))"
proof -
  have mono: "nextStartTimeRef (runMessages s earlier)
      \<le> nextStartTimeRef (runMessages s (earlier @ later))"
    by (simp add: runMessages_append runMessages_cursor_mono [OF assms])
  have clock: "clockAtArrival h \<le> nextStartTimeRef (runMessages s (earlier @ [(h, m)]))"
    if "audioData m = Some b" and "b \<noteq> []"
      and "interrupted m \<longrightarrow> clockAtArrival h \<le> clockAtInterruption h" for h m b
    using onmessage_cursor_clock [OF that] by (simp add: runMessages_append)
  from mono clock show ?thesis by blast
qed

theorem cursor_monotone_witness:
  "nextStartTimeRef (runMessages openSession [(hostAt 0, audioMsg)]) = 1
   \<and> nextStartTimeRef (runMessages openSession
        ([(hostAt 0, audioMsg)] @ [(hostAt 3, audioMsg), (hostAt 3, turnCompleteMsg)])) = 4
   \<and> clockAtArrival (hostAt 3)
        \<le> nextStartTimeRef (runMessages openSession ([(hostAt 0, audioMsg)] @ [(hostAt 3, audioMsg)]))
   \<and> interrupted audioInterruptMsg
   \<and> clockAtArrival (hostAt 3) \<le> clockAtInterruption (hostAt 3)
   \<and> clockAtArrival (hostAt 3)
        \<le> nextStartTimeRef (runMessages openSession
             ([(hostAt 0, audioMsg)] @ [(hostAt 3, audioInterruptMsg)]))"
proof -
  have ni: "\<not> interrupted audioMsg" "\<not> interrupted turnCompleteMsg"
    by (simp_all add: audioMsg_def turnCompleteMsg_def)
  have l: "list_all (\<lambda>(h, m). \<not> interrupted m) [(hostAt 3, audioMsg), (hostAt 3, turnCompleteMsg)]"
    by (simp add: ni)
  have ne: "''AAAA'' \<noteq> []" by simp
  have c: "clockAtArrival (hostAt 0) = 0" "clockAtArrival (hostAt 3) = 3"
    "clockAtInterruption (hostAt 3) = 3"
    by (simp_all add: hostAt_def)
  have ai: "audioData audioInterruptMsg = Some ''AAAA''" "interrupted audioInterruptMsg"
    by (simp_all add: audioInterruptMsg_def)
  have t: "handleAudioOutput h turnCompleteMsg s = s" for h s
    by (simp add: handleAudioOutput_def turnCompleteMsg_def)
  have v: "nextStartTimeRef (runMessages openSession [(hostAt 0, audioMsg)]) = 1"
    "nextStartTimeRef (runMessages openSession
        ([(hostAt 0, audioMsg)] @ [(hostAt 3, audioMsg), (hostAt 3, turnCompleteMsg)])) = 4"
    by (simp_all add: onmessage_not_interrupted ni t c openSession_eval duration_oneSecond
        handleAudioOutput_decoded [OF audioMsg_data ne hostAt_decode])
  note inst = cursor_monotone_between_interruptions
    [OF l, where s = openSession and earlier = "[(hostAt 0, audioMsg)]"]
  from inst have plain: "clockAtArrival (hostAt 3)
      \<le> nextStartTimeRef (runMessages openSession ([(hostAt 0, audioMsg)] @ [(hostAt 3, audioMsg)]))"
    using audioMsg_data ne ni(1) by blast
  from inst have both: "clockAtArrival (hostAt 3)
      \<le> nextStartTimeRef (runMessages openSession
           ([(hostAt 0, audioMsg)] @ [(hostAt 3, audioInterruptMsg)]))"
    using ai(1) ne c(2,3) by (metis order_refl)
  from v plain both ai(2) c show ?thesis by simp
qed

text \<open>
  The cursor is not at least the clock at all times: after a buffer of one second scheduled
  at 0 the cursor is 1, and it is still 1 when a message without audio arrives with the
  clock at 3.
\<close>

theorem cursor_behind_clock_counterexample:
  "nextStartTimeRef (runMessages openSession [(hostAt 0, audioMsg), (hostAt 3, turnCompleteMsg)]) = 1
   \<and> clockAtArrival (hostAt 3) = 3
   \<and> nextStartTimeRef (runMessages openSession [(hostAt 0, audioMsg), (hostAt 3, turnCompleteMsg)])
       < clockAtArrival (hostAt 3)"
proof -
  have ni: "\<not> interrupted audioMsg" "\<not> interrupted turnCompleteMsg"
    by (simp_all add: audioMsg_def turnCompleteMsg_def)
  have ne: "''AAAA'' \<noteq> []" by simp
  have c: "clockAtArrival (hostAt 0) = 0" "clockAtArrival (hostAt 3) = 3"
    by (simp_all add: hostAt_def)
  have t: "handleAudioOutput h turnCompleteMsg s = s" for h s
    by (simp add: handleAudioOutput_def turnCompleteMsg_def)
  show ?thesis
    by (simp add: onmessage_not_interrupted ni t c openSession_eval duration_oneSecond
        handleAudioOutput_decoded [OF audioMsg_data ne hostAt_decode])
qed

text \<open>
  Claim C7. When the payload of a message fails to decode, the audio block of the handler
  (lines 160 to 209) only moves the cursor to the maximum of itself and the clock and
  writes the error to the console: the user-visible log, the connection state, the session
  promise and the active set are unchanged, and nothing is thrown. The handler of such a
  message returns; if the message also carries the interruption signal, what follows is
  the interruption handling alone.
\<close>

theorem decode_failure_console_only:
  assumes "audioData msg = Some b" and "b \<noteq> []" and "decodeAudio host b = Inl err"
  shows "handleAudioOutput host msg s =
       s\<lparr>nextStartTimeRef := max (nextStartTimeRef s) (clockAtArrival host),
         hostCalls := hostCalls s @ [ConsoleError (''Error decoding audio: '' @ message err)]\<rparr>
     \<and> logs (handleAudioOutput host msg s) = logs s
     \<and> connectionState (handleAudioOutput host msg s) = connectionState s
     \<and> sessionPromiseRef (handleAudioOutput host msg s) = sessionPromiseRef s
     \<and> audioSourcesRef (handleAudioOutput host msg s) = audioSourcesRef s
     \<and> (\<not> interrupted msg \<longrightarrow>
          onmessage host msg s = Returns (handleAudioOutput host msg s))
     \<and> (interrupted msg \<and> reachable s \<longrightarrow>
          (\<exists>s'. onmessage host msg s = Returns s'
             \<and> logs s' = logs s @ [\<lparr>sender = System, logText = ''User interrupted AI.''\<rparr>]
             \<and> connectionState s' = connectionState s
             \<and> sessionPromiseRef s' = sessionPromiseRef s))"
proof -
  note f = handleAudioOutput_failed [OF assms]
  have i: "\<exists>s'. onmessage host msg s = Returns s'
             \<and> logs s' = logs s @ [\<lparr>sender = System, logText = ''User interrupted AI.''\<rparr>]
             \<and> connectionState s' = connectionState s
             \<and> sessionPromiseRef s' = sessionPromiseRef s"
    if "interrupted msg" and "reachable s"
  proof -
    from that(2) have "allStarted s" by (rule reachable_allStarted)
    then have "list_all (\<lambda>u. startedAt u \<noteq> None) (audioSourcesRef s)"
      by (simp add: allStarted_def)
    with that(1) show ?thesis
      by (simp add: onmessage_def f handleInterruption_def Let_def addLog_def stopAll_started
          hostCall_def)
  qed
  show ?thesis
    using i by (simp add: f onmessage_not_interrupted)
qed

theorem decode_failure_console_only_witness:
  "onmessage (hostAt 2) corruptMsg twoPlaying =
     Returns (twoPlaying\<lparr>nextStartTimeRef := 2,
        hostCalls := hostCalls twoPlaying @ [ConsoleError ''Error decoding audio: malformed'']\<rparr>)
   \<and> logs (handleAudioOutput (hostAt 2) corruptMsg twoPlaying) = logs twoPlaying
   \<and> decodeAudio (hostAt 2) ''!!!!'' = Inl (JsError ''malformed'')"
proof -
  have a: "audioData corruptMsg = Some ''!!!!''" and ni: "\<not> interrupted corruptMsg"
    by (simp_all add: corruptMsg_def)
  have ne: "''!!!!'' \<noteq> []" by simp
  have d: "decodeAudio (hostAt 2) ''!!!!'' = Inl (JsError ''malformed'')"
    by (simp add: hostAt_def)
  have c: "clockAtArrival (hostAt 2) = 2" by (simp add: hostAt_def)
  have n: "nextStartTimeRef twoPlaying = 2" by (simp add: twoPlaying_eval)
  from decode_failure_console_only [OF a ne d, of twoPlaying] ni d c n
  show ?thesis by simp
qed

subsection \<open>Connecting\<close>

lemma connectTry_throws_logs:
  assumes "connectTry host s = Throws e s1"
  shows "\<exists>k. 1 \<le> k \<and> k \<le> 3 \<and>
     logs s1 = logs s @ take k
       [\<lparr>sender = System, logText = ''Initializing audio contexts...''\<rparr>,
        \<lparr>sender = System, logText = ''Requesting microphone access...''\<rparr>,
        \<lparr>sender = System, logText = ''Connecting to Gemini Live API...''\<rparr>]"
proof (cases "newInputContext host")
  case (Some e1)
  with assms have "logs s1 = logs s @ [\<lparr>sender = System, logText = ''Initializing audio contexts...''\<rparr>]"
    by (auto simp add: connectTry_def Let_def addLog_def)
  then show ?thesis by (intro exI [of _ 1]) simp
next
  case None
  note n1 = None
  show ?thesis
  proof (cases "newOutputContext host")
    case (Some e2)
    with assms n1 have "logs s1 = logs s @ [\<lparr>sender = System, logText = ''Initializing audio contexts...''\<rparr>]"
      by (auto simp add: connectTry_def Let_def addLog_def)
    then show ?thesis by (intro exI [of _ 1]) simp
  next
    case None
    note n2 = None
    show ?thesis
    proof (cases "getUserMedia host")
      case (Rejected e3)
      with assms n1 n2 have "logs s1 = logs s @
          [\<lparr>sender = System, logText = ''Initializing audio contexts...''\<rparr>,
           \<lparr>sender = System, logText = ''Requesting microphone access...''\<rparr>]"
        by (auto simp add: connectTry_def Let_def addLog_def)
      then show ?thesis by (intro exI [of _ 2]) simp
    next
      case NeverSettles
      with assms n1 n2 show ?thesis by (simp add: connectTry_def Let_def)
    next
      case (Fulfilled stream)
      note f = Fulfilled
      show ?thesis
      proof (cases "newGoogleGenAI host")
        case (Some e4)
        with assms n1 n2 f have "logs s1 = logs s @
            [\<lparr>sender = System, logText = ''Initializing audio contexts...''\<rparr>,
             \<lparr>sender = System, logText = ''Requesting microphone access...''\<rparr>]"
          by (auto simp add: connectTry_def Let_def addLog_def)
        then show ?thesis by (intro exI [of _ 2]) simp
      next
        case None
        note n4 = None
        show ?thesis
        proof (cases "liveConnect host")
          case (Inl e5)
          with assms n1 n2 f n4 have "logs s1 = logs s @
              [\<lparr>sender = System, logText = ''Initializing audio contexts...''\<rparr>,
               \<lparr>sender = System, logText = ''Requesting microphone access...''\<rparr>,
               \<lparr>sender = System, logText = ''Connecting to Gemini Live API...''\<rparr>]"
            by (auto simp add: connectTry_def Let_def addLog_def)
          then show ?thesis by (intro exI [of _ 3]) simp
        next
          case (Inr p)
          with assms n1 n2 f n4 show ?thesis by (simp add: connectTry_def Let_def)
        qed
      qed
    qed
  qed
qed

lemma connectCatch_fields:
  "logs (connectCatch e s) = logs s @ [\<lparr>sender = System, logText = ''Failed to connect: '' @ message e\<rparr>]
   \<and> connectionState (connectCatch e s) = ERROR
   \<and> audioSourcesRef (connectCatch e s) = []
   \<and> processorRef (connectCatch e s) = None
   \<and> sourceNodeRef (connectCatch e s) = None
   \<and> mediaStreamRef (connectCatch e s) = None
   \<and> inputAudioContextRef (connectCatch e s) = None
   \<and> outputAudioContextRef (connectCatch e s) = None
   \<and> volume (connectCatch e s) = 0 \<and> aiVolume (connectCatch e s) = 0"
  by (simp add: connectCatch_def Let_def cleanupAudio_eq addLog_def hostCall_def)

lemma connectTry_kept:
  "hostCalls (stateOf (connectTry host s)) = hostCalls s
   \<and> processorRef (stateOf (connectTry host s)) = processorRef s
   \<and> sourceNodeRef (stateOf (connectTry host s)) = sourceNodeRef s"
  by (simp add: connectTry_def Let_def addLog_def split: option.splits Promise.splits sum.splits)

lemma connectCatch_hostCalls:
  "hostCalls (connectCatch e s) =
     hostCalls s @ [ConsoleError (message e)]
     @ map (\<lambda>u. SourceStop (nodeId u)) (filter (\<lambda>u. startedAt u \<noteq> None) (audioSourcesRef s))
     @ (case processorRef s of None \<Rightarrow> [] | Some p \<Rightarrow> [ProcessorDisconnect, ProcessorHandlerCleared])
     @ (case sourceNodeRef s of None \<Rightarrow> [] | Some n \<Rightarrow> [SourceNodeDisconnect])
     @ (case mediaStreamRef s of None \<Rightarrow> [] | Some stream \<Rightarrow> map TrackStop stream)
     @ (case inputAudioContextRef s of None \<Rightarrow> [] | Some c \<Rightarrow> [ContextClose c])
     @ (case outputAudioContextRef s of None \<Rightarrow> [] | Some c \<Rightarrow> [ContextClose c])"
  by (simp add: connectCatch_def Let_def cleanupAudio_eq addLog_def hostCall_def)

lemma connectToGemini_never_throws: "connectToGemini host s \<noteq> Throws e s'"
  by (cases "connectTry host s") (simp_all add: connectToGemini_def)

lemma one_failure_entry:
  assumes "1 \<le> k" and "k \<le> (3::nat)"
  shows "length (filter (\<lambda>l. take 19 (logText l) = ''Failed to connect: '')
     (take k
       [\<lparr>sender = System, logText = ''Initializing audio contexts...''\<rparr>,
        \<lparr>sender = System, logText = ''Requesting microphone access...''\<rparr>,
        \<lparr>sender = System, logText = ''Connecting to Gemini Live API...''\<rparr>]
      @ [\<lparr>sender = System, logText = ''Failed to connect: '' @ m\<rparr>])) = 1"
proof -
  from assms have "k = 1 \<or> k = 2 \<or> k = 3" by arith
  then show ?thesis by (elim disjE) (simp_all add: numeral_2_eq_2 numeral_3_eq_3)
qed

text \<open>
  Whenever a statement of the \<open>try\<close> block of \<open>connectToGemini\<close> throws (a context
  cannot be created, the microphone is denied, the client or the session call throws), the
  function returns normally, the connection state is \<open>ERROR\<close>, the entries appended to the
  log are the progress entries written before the failure followed by exactly one entry
  that describes the failure, and the audio resources are released: the error goes to the
  console, every resource held when the exception was thrown (\<open>s1\<close> is the state at the
  throw) is stopped, disconnected or closed, every reference is null and both volumes are
  zero. No call of \<open>connectToGemini\<close> ends by throwing.
\<close>

lemma connect_failure_caught:
  assumes "connectTry host s = Throws e s1"
  shows "\<exists>s' k. connectToGemini host s = Returns s'
     \<and> connectionState s' = ERROR
     \<and> 1 \<le> k \<and> k \<le> 3
     \<and> logs s' = logs s
         @ take k
            [\<lparr>sender = System, logText = ''Initializing audio contexts...''\<rparr>,
             \<lparr>sender = System, logText = ''Requesting microphone access...''\<rparr>,
             \<lparr>sender = System, logText = ''Connecting to Gemini Live API...''\<rparr>]
         @ [\<lparr>sender = System, logText = ''Failed to connect: '' @ message e\<rparr>]
     \<and> length (filter (\<lambda>l. take 19 (logText l) = ''Failed to connect: '')
          (drop (length (logs s)) (logs s'))) = 1
     \<and> hostCalls s' =
         hostCalls s @ [ConsoleError (message e)]
         @ map (\<lambda>u. SourceStop (nodeId u))
             (filter (\<lambda>u. startedAt u \<noteq> None) (audioSourcesRef s))
         @ (case processorRef s of None \<Rightarrow> []
            | Some p \<Rightarrow> [ProcessorDisconnect, ProcessorHandlerCleared])
         @ (case sourceNodeRef s of None \<Rightarrow> [] | Some n \<Rightarrow> [SourceNodeDisconnect])
         @ (case mediaStreamRef s1 of None \<Rightarrow> [] | Some stream \<Rightarrow> map TrackStop stream)
         @ (case inputAudioContextRef s1 of None \<Rightarrow> [] | Some c \<Rightarrow> [ContextClose c])
         @ (case outputAudioContextRef s1 of None \<Rightarrow> [] | Some c \<Rightarrow> [ContextClose c])
     \<and> audioSourcesRef s' = [] \<and> processorRef s' = None \<and> sourceNodeRef s' = None
     \<and> mediaStreamRef s' = None \<and> inputAudioContextRef s' = None
     \<and> outputAudioContextRef s' = None
     \<and> volume s' = 0 \<and> aiVolume s' = 0
     \<and> (\<forall>h0 s0 e0 s0'. connectToGemini h0 s0 \<noteq> Throws e0 s0')"
proof -
  from connectTry_throws_logs [OF assms] obtain k where k: "1 \<le> k" "k \<le> 3"
    and l: "logs s1 = logs s @ take k
       [\<lparr>sender = System, logText = ''Initializing audio contexts...''\<rparr>,
        \<lparr>sender = System, logText = ''Requesting microphone access...''\<rparr>,
        \<lparr>sender = System, logText = ''Connecting to Gemini Live API...''\<rparr>]"
    by blast
  have r: "connectToGemini host s = Returns (connectCatch e s1)"
    by (simp add: connectToGemini_def assms)
  from connectTry_kept [of host s] connectTry_sources [of host s]
  have kept: "hostCalls s1 = hostCalls s" "processorRef s1 = processorRef s"
    "sourceNodeRef s1 = sourceNodeRef s" "audioSourcesRef s1 = audioSourcesRef s"
    by (simp_all add: assms)
  note f = connectCatch_fields [of e s1]
  note h = connectCatch_hostCalls [of e s1, unfolded kept]
  have one: "length (filter (\<lambda>l. take 19 (logText l) = ''Failed to connect: '')
          (drop (length (logs s)) (logs (connectCatch e s1)))) = 1"
    using one_failure_entry [OF k, of "message e"] by (simp add: f l)
  show ?thesis
    apply (rule exI [of _ "connectCatch e s1"])
    apply (rule exI [of _ k])
    using r k one f l h connectToGemini_never_throws by simp
qed

text \<open>
  The microphone is denied: the state is \<open>ERROR\<close>, the log holds two progress entries and
  the failure entry, and the two audio contexts created before the denial are closed.
\<close>

lemma connect_denied_example:
  "(\<exists>s1. connectTry deniedHost initialApp = Throws (JsError ''Permission denied'') s1)
   \<and> (\<exists>s'. connectToGemini deniedHost initialApp = Returns s'
        \<and> connectionState s' = ERROR
        \<and> logs s' =
            [\<lparr>sender = System, logText = ''Initializing audio contexts...''\<rparr>,
             \<lparr>sender = System, logText = ''Requesting microphone access...''\<rparr>,
             \<lparr>sender = System, logText = ''Failed to connect: Permission denied''\<rparr>]
        \<and> hostCalls s' =
            [ConsoleError ''Permission denied'', ContextClose \<lparr>sampleRate = 16000\<rparr>,
             ContextClose \<lparr>sampleRate = 24000\<rparr>]
        \<and> mediaStreamRef s' = None \<and> inputAudioContextRef s' = None
        \<and> outputAudioContextRef s' = None)"
proof -
  define s1 where "s1 = (initialApp\<lparr>connectionState := CONNECTING,
      logs := [\<lparr>sender = System, logText = ''Initializing audio contexts...''\<rparr>,
               \<lparr>sender = System, logText = ''Requesting microphone access...''\<rparr>],
      inputAudioContextRef := Some \<lparr>sampleRate = 16000\<rparr>,
      outputAudioContextRef := Some \<lparr>sampleRate = 24000\<rparr>\<rparr>)"
  have t: "connectTry deniedHost initialApp = Throws (JsError ''Permission denied'') s1"
    by (simp add: connectTry_def deniedHost_def okHost_def Let_def addLog_def initialApp_def s1_def)
  from connect_failure_caught [OF t] obtain s' k where
    r: "connectToGemini deniedHost initialApp = Returns s'" and e: "connectionState s' = ERROR"
    and refs: "mediaStreamRef s' = None" "inputAudioContextRef s' = None"
      "outputAudioContextRef s' = None"
    by blast
  have s': "s' = connectCatch (JsError ''Permission denied'') s1"
    using r by (simp add: connectToGemini_def t)
  have l: "logs s' =
            [\<lparr>sender = System, logText = ''Initializing audio contexts...''\<rparr>,
             \<lparr>sender = System, logText = ''Requesting microphone access...''\<rparr>,
             \<lparr>sender = System, logText = ''Failed to connect: Permission denied''\<rparr>]"
    unfolding s' by (simp add: connectCatch_fields s1_def)
  have h: "hostCalls s' =
            [ConsoleError ''Permission denied'', ContextClose \<lparr>sampleRate = 16000\<rparr>,
             ContextClose \<lparr>sampleRate = 24000\<rparr>]"
    unfolding s' by (simp add: connectCatch_hostCalls s1_def initialApp_def)
  from r t e refs l h show ?thesis by simp
qed

text \<open>
  Claim C6. A session open failure is not caught when it arrives as the rejection of the
  promise that \<open>ai.live.connect\<close> returns: the promise is stored without \<open>await\<close> (lines
  113 and 240), so nothing is thrown inside the \<open>try\<close> block. \<open>connectToGemini\<close> returns
  normally with the connection state \<open>CONNECTING\<close>, the log holds the three progress
  entries and no entry for the failure, the microphone stream and both audio contexts are
  still held, and no host call has been made: nothing is released.
\<close>

theorem connect_session_rejection_uncaught:
  "liveConnect rejectingHost = Inr (Rejected (JsError ''WebSocket closed''))
   \<and> connectToGemini rejectingHost initialApp =
       Returns (initialApp
         \<lparr>connectionState := CONNECTING,
          logs := [\<lparr>sender = System, logText = ''Initializing audio contexts...''\<rparr>,
                   \<lparr>sender = System, logText = ''Requesting microphone access...''\<rparr>,
                   \<lparr>sender = System, logText = ''Connecting to Gemini Live API...''\<rparr>],
          inputAudioContextRef := Some \<lparr>sampleRate = 16000\<rparr>,
          outputAudioContextRef := Some \<lparr>sampleRate = 24000\<rparr>,
          mediaStreamRef := Some [\<lparr>enabled = True\<rparr>],
          sessionPromiseRef := Some (Rejected (JsError ''WebSocket closed''))\<rparr>)
   \<and> connectionState (stateOf (connectToGemini rejectingHost initialApp)) \<noteq> ERROR
   \<and> length (filter (\<lambda>l. take 19 (logText l) = ''Failed to connect: '')
        (logs (stateOf (connectToGemini rejectingHost initialApp)))) = 0
   \<and> hostCalls (stateOf (connectToGemini rejectingHost initialApp)) = []"
  by (simp add: connectToGemini_def connectTry_def rejectingHost_def okHost_def Let_def
      addLog_def initialApp_def)

subsection \<open>Capture and mute\<close>

lemma onaudioprocess_eq:
  "onaudioprocess createBlob inputData s =
     s\<lparr>volume := frameVolume inputData,
       hostCalls := hostCalls s @
         (case sessionPromiseRef s of
            Some (Fulfilled session) \<Rightarrow> [SendRealtimeInput session (createBlob inputData)]
          | _ \<Rightarrow> [])\<rparr>"
  by (simp add: onaudioprocess_def Let_def hostCall_def split: option.splits Promise.splits)

lemma fold_squares:
  "fold (\<lambda>x acc. acc + x * x) xs a = a + sum_list (map (\<lambda>x. x * x) xs)"
  by (induction xs arbitrary: a) (simp_all add: algebra_simps)

lemma sumSquares_eq: "sumSquares xs = sum_list (map (\<lambda>x. x * x) xs)"
  by (simp add: sumSquares_def fold_squares)

lemma sumSquares_replicate: "sumSquares (replicate n c) = real n * (c * c)"
  by (simp add: sumSquares_eq sum_list_replicate map_replicate)

lemma sumSquares_nonneg: "0 \<le> sumSquares xs"
  unfolding sumSquares_eq by (induction xs) simp_all

lemma sumSquares_le_length:
  "\<forall>x \<in> set xs. \<bar>x\<bar> \<le> 1 \<Longrightarrow> sumSquares xs \<le> real (length xs)"
  unfolding sumSquares_eq
proof (induction xs)
  case Nil
  show ?case by simp
next
  case (Cons x xs)
  then have "\<bar>x\<bar> \<le> 1" by simp
  then have "x * x \<le> 1"
    by (metis abs_mult_self_eq abs_ge_zero mult_le_one)
  with Cons show ?case by simp
qed

lemma frameVolume_eq_rms:
  "frameVolume xs = 5 * sqrt (sum_list (map (\<lambda>x. x * x) xs) / real (length xs))"
  by (simp add: frameVolume_def Let_def sumSquares_eq)

text \<open>
  The published estimate is five times the root mean square of the frame; for samples in
  \<open>[-1, 1]\<close> it lies between 0 and 5, and a silent frame gives 0.
\<close>

lemma frameVolume_bounds:
  assumes "\<forall>x \<in> set xs. \<bar>x\<bar> \<le> 1"
  shows "0 \<le> frameVolume xs \<and> frameVolume xs \<le> 5"
proof -
  have n: "0 \<le> sumSquares xs / real (length xs)"
    by (simp add: sumSquares_nonneg)
  have "sumSquares xs / real (length xs) \<le> 1"
  proof (cases "xs = []")
    case True
    then show ?thesis by simp
  next
    case False
    with sumSquares_le_length [OF assms] show ?thesis by simp
  qed
  then have "sqrt (sumSquares xs / real (length xs)) \<le> 1"
    by simp
  with n show ?thesis by (simp add: frameVolume_def Let_def)
qed

lemma frameVolume_silent: "frameVolume (replicate 4096 0) = 0"
  by (simp add: frameVolume_def Let_def sumSquares_replicate)

text \<open>
  Claim C8. The estimate does not stay in \<open>[0, 1]\<close>: a frame of 4096 samples that are all
  1 lies in \<open>[-1, 1]\<close> and is published with volume 5.
\<close>

theorem full_scale_frame_volume:
  "list_all (\<lambda>x. \<bar>x\<bar> \<le> 1) (replicate 4096 (1::real))
   \<and> length (replicate 4096 (1::real)) = 4096
   \<and> volume (onaudioprocess createBlob (replicate 4096 1) s) = 5"
  by (simp add: onaudioprocess_eq frameVolume_def Let_def sumSquares_replicate list_all_iff)

lemma connectedApp_eval:
  "mediaStreamRef connectedApp = Some [\<lparr>enabled = True\<rparr>]
   \<and> sessionPromiseRef connectedApp = Some (Fulfilled (LiveSession 0))
   \<and> connectionState connectedApp = CONNECTED
   \<and> isMicOn connectedApp
   \<and> hostCalls connectedApp = [MicGraphConnect]"
  by (simp add: connectedApp_def okHost_def connectToGemini_def connectTry_def onopen_def Let_def
      addLog_def hostCall_def initialApp_def)

text \<open>
  Claim C9. \<open>toggleMic\<close> changes nothing when no stream or no track is held; otherwise it
  flips the enable flag of the first audio track, sets the mic-on indicator to the new
  flag and appends one log entry, and nothing else: it makes no host call (no track is
  stopped, the processor stays in place), and the session, playback and connection state
  are unchanged. \<open>onaudioprocess\<close> does not read the flag: on the toggled state it still
  publishes the volume of the frame and sends the encoded frame to a fulfilled session, as
  it does on the untoggled state.
\<close>

theorem toggleMic_only_flag:
  "(mediaStreamRef s = None \<or> mediaStreamRef s = Some [] \<longrightarrow> toggleMic s = s)
   \<and> (\<forall>audioTrack others. mediaStreamRef s = Some (audioTrack # others) \<longrightarrow>
        toggleMic s =
          s\<lparr>mediaStreamRef := Some (audioTrack\<lparr>enabled := \<not> enabled audioTrack\<rparr> # others),
            isMicOn := \<not> enabled audioTrack,
            logs := logs s @
              [\<lparr>sender = System,
                logText = (if enabled audioTrack then ''Microphone muted.''
                           else ''Microphone unmuted.'')\<rparr>]\<rparr>)
   \<and> hostCalls (toggleMic s) = hostCalls s
   \<and> processorRef (toggleMic s) = processorRef s
   \<and> sourceNodeRef (toggleMic s) = sourceNodeRef s
   \<and> sessionPromiseRef (toggleMic s) = sessionPromiseRef s
   \<and> connectionState (toggleMic s) = connectionState s
   \<and> audioSourcesRef (toggleMic s) = audioSourcesRef s
   \<and> nextStartTimeRef (toggleMic s) = nextStartTimeRef s
   \<and> volume (onaudioprocess createBlob inputData (toggleMic s)) = frameVolume inputData
   \<and> hostCalls (onaudioprocess createBlob inputData (toggleMic s)) =
       hostCalls (onaudioprocess createBlob inputData s)
   \<and> onaudioprocess createBlob inputData (toggleMic s) =
       toggleMic (onaudioprocess createBlob inputData s)
   \<and> (\<forall>session. sessionPromiseRef s = Some (Fulfilled session) \<longrightarrow>
        hostCalls (onaudioprocess createBlob inputData (toggleMic s)) =
          hostCalls s @ [SendRealtimeInput session (createBlob inputData)])"
proof (cases "mediaStreamRef s")
  case None
  then have t: "toggleMic s' = s'" if "mediaStreamRef s' = None" for s'
    using that by (simp add: toggleMic_def)
  show ?thesis by (simp add: t None onaudioprocess_eq)
next
  case (Some stream)
  show ?thesis
  proof (cases stream)
    case Nil
    have t: "toggleMic s' = s'" if "mediaStreamRef s' = Some []" for s'
      using that by (simp add: toggleMic_def)
    show ?thesis by (simp add: t Some Nil onaudioprocess_eq)
  next
    case (Cons audioTrack others)
    have t: "toggleMic s' =
       s'\<lparr>mediaStreamRef := Some (audioTrack\<lparr>enabled := \<not> enabled audioTrack\<rparr> # others),
         isMicOn := \<not> enabled audioTrack,
         logs := logs s' @
           [\<lparr>sender = System,
             logText = (if enabled audioTrack then ''Microphone muted.'' else ''Microphone unmuted.'')\<rparr>]\<rparr>"
      if "mediaStreamRef s' = Some (audioTrack # others)" for s'
      using that by (simp add: toggleMic_def Let_def addLog_def)
    show ?thesis by (simp add: t Some Cons onaudioprocess_eq)
  qed
qed

theorem toggleMic_only_flag_witness:
  "connectionState connectedApp = CONNECTED
   \<and> mediaStreamRef connectedApp = Some [\<lparr>enabled = True\<rparr>]
   \<and> mediaStreamRef (toggleMic connectedApp) = Some [\<lparr>enabled = False\<rparr>]
   \<and> \<not> isMicOn (toggleMic connectedApp)
   \<and> logs (toggleMic connectedApp) =
        logs connectedApp @ [\<lparr>sender = System, logText = ''Microphone muted.''\<rparr>]
   \<and> toggleMic initialApp = initialApp
   \<and> hostCalls (onaudioprocess mutedFrameBlob (replicate 4096 0) (toggleMic connectedApp)) =
       [MicGraphConnect,
        SendRealtimeInput (LiveSession 0) \<lparr>blobData = [], mimeType = ''audio/pcm;rate=16000''\<rparr>]"
proof -
  have i: "mediaStreamRef initialApp = None" by (simp add: initialApp_def)
  from toggleMic_only_flag [of connectedApp mutedFrameBlob "replicate 4096 0"]
    toggleMic_only_flag [of initialApp mutedFrameBlob "replicate 4096 0"] i
  show ?thesis
    by (simp add: connectedApp_eval mutedFrameBlob_def onaudioprocess_eq)
qed

subsection \<open>Disconnecting\<close>



subsection \<open>The PCM round trip\<close>

lemma byte_bound: "unat (a :: 8 word) < 256"
  using unsigned_less [of a, where 'a = nat] by simp

lemma byte_of_unat: "(of_nat (unat (a :: 8 word)) :: 8 word) = a"
  by simp

lemma div16_lt: "(B::nat) < 256 \<Longrightarrow> B div 16 < 16"
  by (simp add: less_mult_imp_div_less)

lemma div64_lt: "(C::nat) < 256 \<Longrightarrow> C div 64 < 4"
  by (simp add: less_mult_imp_div_less)

lemma div4_lt: "(A::nat) < 256 \<Longrightarrow> A div 4 < 64"
  by (simp add: less_mult_imp_div_less)

lemma sextet1_lt: "(B::nat) < 256 \<Longrightarrow> (A::nat) mod 4 * 16 + B div 16 < 64"
proof -
  assume "B < 256"
  then have "B div 16 < 16" by (rule div16_lt)
  moreover have "A mod 4 < 4" by simp
  ultimately show ?thesis by linarith
qed

lemma sextet2_lt: "(C::nat) < 256 \<Longrightarrow> (B::nat) mod 16 * 4 + C div 64 < 64"
proof -
  assume "C < 256"
  then have "C div 64 < 4" by (rule div64_lt)
  moreover have "B mod 16 < 16" by simp
  ultimately show ?thesis by linarith
qed

lemma byte0_rejoin: "(B::nat) < 256 \<Longrightarrow> (A::nat) div 4 * 4 + (A mod 4 * 16 + B div 16) div 16 = A"
proof -
  assume "B < 256"
  then have "B div 16 < 16" by (rule div16_lt)
  then have 1: "(A mod 4 * 16 + B div 16) div 16 = A mod 4" by simp
  show ?thesis unfolding 1 by simp
qed

lemma byte1_rejoin: "(B::nat) < 256 \<Longrightarrow> (C::nat) < 256 \<Longrightarrow> ((A::nat) mod 4 * 16 + B div 16) mod 16 * 16
      + (B mod 16 * 4 + C div 64) div 4 = B"
proof -
  assume "B < 256" and "C < 256"
  then have b: "B div 16 < 16" and c: "C div 64 < 4" by (simp_all add: div16_lt div64_lt)
  from b have 1: "(A mod 4 * 16 + B div 16) mod 16 = B div 16" by simp
  from c have 2: "(B mod 16 * 4 + C div 64) div 4 = B mod 16" by simp
  show ?thesis unfolding 1 2 by simp
qed

lemma byte2_rejoin: "(C::nat) < 256 \<Longrightarrow> ((B::nat) mod 16 * 4 + C div 64) mod 4 * 64 + C mod 64 = C"
proof -
  assume "C < 256"
  then have c: "C div 64 < 4" by (rule div64_lt)
  then have 1: "(B mod 16 * 4 + C div 64) mod 4 = C div 64" by simp
  show ?thesis unfolding 1 by simp
qed

lemma byte1_rejoin_pad: "(B::nat) < 256 \<Longrightarrow> ((A::nat) mod 4 * 16 + B div 16) mod 16 * 16 + B mod 16 * 4 div 4 = B"
proof -
  assume "B < 256"
  then have b: "B div 16 < 16" by (rule div16_lt)
  then have 1: "(A mod 4 * 16 + B div 16) mod 16 = B div 16" by simp
  show ?thesis unfolding 1 by simp
qed

lemma byte0_rejoin_pad: "(A::nat) div 4 * 4 + A mod 4 * 16 div 16 = A"
  by simp

lemma high_byte_lt: "(w::nat) < 65536 \<Longrightarrow> w div 256 < 256"
  by (simp add: less_mult_imp_div_less)

lemma low_high_rejoin: "(w :: nat) mod 256 + 256 * (w div 256) = w"
  by simp

lemma charSextet_sextetChar: "n < 64 \<Longrightarrow> charSextet (sextetChar n) = Some n"
proof -
  have "\<forall>n \<in> set [0..<64]. charSextet (sextetChar n) = Some n"
    by code_simp
  then show "n < 64 \<Longrightarrow> charSextet (sextetChar n) = Some n" by simp
qed

lemma sextetChar_not_pad: "n < 64 \<Longrightarrow> sextetChar n \<noteq> CHR ''=''"
proof -
  have "\<forall>n \<in> set [0..<64]. sextetChar n \<noteq> CHR ''=''"
    by code_simp
  then show "n < 64 \<Longrightarrow> sextetChar n \<noteq> CHR ''=''" by simp
qed

lemma decodeQuad_encode:
  fixes a b c :: "8 word"
  shows "decodeQuad (sextetChar (unat a div 4)) (sextetChar (unat a mod 4 * 16 + unat b div 16))
           (sextetChar (unat b mod 16 * 4 + unat c div 64)) (sextetChar (unat c mod 64))
         = Some [a, b, c]"
proof -
  note ba = byte_bound [of a] and bb = byte_bound [of b] and bc = byte_bound [of c]
  have s3: "unat c mod 64 < 64" by simp
  show ?thesis
    unfolding decodeQuad_def
    by (simp only: charSextet_sextetChar [OF div4_lt [OF ba]] charSextet_sextetChar [OF sextet1_lt [OF bb]]
        charSextet_sextetChar [OF sextet2_lt [OF bc]] charSextet_sextetChar [OF s3]
        byte0_rejoin [OF bb] byte1_rejoin [OF bb bc] byte2_rejoin [OF bc] byte_of_unat prod.case option.case)
qed

lemma decodeLast_encode3:
  fixes a b c :: "8 word"
  shows "decodeLast (sextetChar (unat a div 4)) (sextetChar (unat a mod 4 * 16 + unat b div 16))
           (sextetChar (unat b mod 16 * 4 + unat c div 64)) (sextetChar (unat c mod 64))
         = Some [a, b, c]"
proof -
  have "sextetChar (unat c mod 64) \<noteq> CHR ''=''"
    by (rule sextetChar_not_pad) simp
  then show ?thesis
    unfolding decodeLast_def by (simp only: if_False decodeQuad_encode)
qed

lemma decodeLast_encode2:
  fixes a b :: "8 word"
  shows "decodeLast (sextetChar (unat a div 4)) (sextetChar (unat a mod 4 * 16 + unat b div 16))
           (sextetChar (unat b mod 16 * 4)) CHR ''='' = Some [a, b]"
proof -
  note ba = byte_bound [of a] and bb = byte_bound [of b]
  have s2': "unat b mod 16 * 4 < 64"
  proof -
    have "unat b mod 16 < 16" by simp
    then show ?thesis by linarith
  qed
  have np: "(sextetChar (unat b mod 16 * 4) = CHR ''='') = False"
    using sextetChar_not_pad [OF s2'] by simp
  have z: "unat b mod 16 * 4 mod 4 = 0" by simp
  show ?thesis
    unfolding decodeLast_def
    by (simp only: np charSextet_sextetChar [OF div4_lt [OF ba]] charSextet_sextetChar [OF sextet1_lt [OF bb]]
        charSextet_sextetChar [OF s2'] z byte0_rejoin [OF bb] byte1_rejoin_pad [OF bb] byte_of_unat prod.case
        option.case if_True if_False refl)
qed

lemma decodeLast_encode1:
  fixes a :: "8 word"
  shows "decodeLast (sextetChar (unat a div 4)) (sextetChar (unat a mod 4 * 16))
           CHR ''='' CHR ''='' = Some [a]"
proof -
  note ba = byte_bound [of a]
  have s1': "unat a mod 4 * 16 < 64"
  proof -
    have "unat a mod 4 < 4" by simp
    then show ?thesis by linarith
  qed
  have z: "unat a mod 4 * 16 mod 16 = 0" by simp
  show ?thesis
    unfolding decodeLast_def
    by (simp only: charSextet_sextetChar [OF div4_lt [OF ba]] charSextet_sextetChar [OF s1'] z byte0_rejoin_pad
        byte_of_unat prod.case option.case if_True refl)
qed

lemma base64Encode_empty: "base64Encode bs = [] \<longleftrightarrow> bs = []"
  by (induction bs rule: base64Encode.induct) simp_all

lemma base64_roundtrip: "base64Decode (base64Encode bs) = Inr bs"
proof (induction bs rule: base64Encode.induct)
  case 1
  show ?case by simp
next
  case (2 a)
  show ?case by (simp add: decodeLast_encode1)
next
  case (3 a b)
  show ?case by (simp add: decodeLast_encode2)
next
  case (4 a b c rest)
  show ?case
  proof (cases "rest = []")
    case True
    then show ?thesis by (simp add: decodeLast_encode3)
  next
    case False
    then have "base64Encode rest \<noteq> []" by (simp add: base64Encode_empty)
    then show ?thesis by (simp add: decodeQuad_encode "4.IH")
  qed
qed

lemma unpackLE_packLE: "unpackLE (of_nat (unat w mod 256)) (of_nat (unat w div 256)) = w"
proof -
  have b: "unat w < 65536" using unsigned_less [of w, where 'a = nat] by simp
  have lo: "unat (of_nat (unat w mod 256) :: 8 word) = unat w mod 256"
    by (simp add: unat_of_nat)
  have hi: "unat (of_nat (unat w div 256) :: 8 word) = unat w div 256"
    using high_byte_lt [OF b] by (simp add: unat_of_nat)
  show ?thesis unfolding unpackLE_def lo hi low_high_rejoin by simp
qed

lemma int16View_pack: "int16View (concat (map packLE ws)) = Some ws"
  by (induction ws) (simp_all add: packLE_def unpackLE_packLE)

lemma sint_toInt16:
  assumes "0 < scale" and "scale \<le> 32767" and "\<forall>y. \<bar>real_of_int (rnd y) - y\<bar> < 1"
    and "\<bar>x\<bar> \<le> 1"
  shows "sint (toInt16 rnd scale x) = rnd (x * scale)
     \<and> \<bar>real_of_int (sint (toInt16 rnd scale x)) / scale - x\<bar> < 1 / scale"
proof -
  have c: "clampSample x = x" using assms(4) by (simp add: clampSample_def)
  let ?k = "rnd (x * scale)"
  have r: "\<bar>real_of_int ?k - x * scale\<bar> < 1" using assms(3) by blast
  have "\<bar>x * scale\<bar> \<le> 32767"
  proof -
    have "\<bar>x * scale\<bar> = \<bar>x\<bar> * scale" using assms(1) by (simp add: abs_mult)
    also have "\<dots> \<le> 1 * scale" using assms(1,4) by (intro mult_right_mono) simp_all
    finally show ?thesis using assms(2) by simp
  qed
  with r have "\<bar>real_of_int ?k\<bar> < 32768" by linarith
  then have bounds: "- 32768 \<le> ?k" "?k < 32768" by linarith+
  have s: "sint (word_of_int ?k :: 16 word) = ?k"
    using bounds by (simp add: sint_sbintrunc' signed_take_bit_int_eq_self)
  have "real_of_int ?k / scale - x = (real_of_int ?k - x * scale) / scale"
    using assms(1) by (simp add: field_simps)
  then have "\<bar>real_of_int ?k / scale - x\<bar> = \<bar>real_of_int ?k - x * scale\<bar> / scale"
    using assms(1) by (simp add: abs_divide del: of_int_mult)
  also have "\<dots> < 1 / scale" using r assms(1) by (simp add: divide_strict_right_mono)
  finally show ?thesis by (simp add: toInt16_def c s)
qed

lemma towardZero_near: "\<bar>real_of_int (towardZero y) - y\<bar> < 1"
  unfolding towardZero_def by (cases "y < 0") (simp_all, linarith+)

text \<open>
  The bound on the scale factor matters: with the factor 32768 and rounding towards zero,
  the sample 1 is stored as 32768, which wraps around to -32768.
\<close>

lemma toInt16_wraps_at_32768: "sint (toInt16 towardZero 32768 1) = - 32768"
  by (simp add: toInt16_def clampSample_def towardZero_def)

lemma toInt16_full_scale: "sint (toInt16 towardZero 32767 1) = 32767"
  by (simp add: toInt16_def clampSample_def towardZero_def)

text \<open>
  Claim C4. For samples in \<open>[-1, 1]\<close>, \<open>decodeFrame\<close> of the encoded frame succeeds and
  gives back, as 16-bit little-endian samples, one sample for each input sample, within one
  quantization step of it: \<open>sint q / scale\<close> differs from the sample by less than
  \<open>1 / scale\<close>. This holds for every scale factor up to 32767 and every rounding that
  moves a number by less than 1.
\<close>

theorem frame_roundtrip:
  assumes "0 < scale" and "scale \<le> 32767" and "\<forall>y. \<bar>real_of_int (rnd y) - y\<bar> < 1"
    and "\<forall>x \<in> set samples. \<bar>x\<bar> \<le> 1"
  shows "\<exists>bytes pcm. decodeFrame (blobData (encodeFrame rnd scale samples)) = Inr bytes
     \<and> int16View bytes = Some pcm
     \<and> length pcm = length samples
     \<and> (\<forall>i < length samples.
          \<bar>real_of_int (sint (pcm ! i)) / scale - samples ! i\<bar> < 1 / scale)"
proof -
  let ?pcm = "map (toInt16 rnd scale) samples"
  have e: "blobData (encodeFrame rnd scale samples) = base64Encode (concat (map packLE ?pcm))"
    by (simp add: encodeFrame_def comp_def)
  have d: "decodeFrame (blobData (encodeFrame rnd scale samples)) = Inr (concat (map packLE ?pcm))"
    unfolding e decodeFrame_def by (rule base64_roundtrip)
  have q: "\<bar>real_of_int (sint (?pcm ! i)) / scale - samples ! i\<bar> < 1 / scale"
    if "i < length samples" for i
  proof -
    from that assms(4) have "\<bar>samples ! i\<bar> \<le> 1" by simp
    from sint_toInt16 [OF assms(1,2,3) this]
    have "\<bar>real_of_int (sint (toInt16 rnd scale (samples ! i))) / scale - samples ! i\<bar>
        < 1 / scale"
      by (rule conjunct2)
    then show ?thesis unfolding nth_map [OF that] .
  qed
  show ?thesis
    using d int16View_pack [of ?pcm] q by auto
qed

theorem frame_roundtrip_witness:
  "blobData (encodeFrame towardZero 32767 demoSamples) = ''AAD/fwGA/z8=''
   \<and> (\<exists>bytes pcm. decodeFrame (blobData (encodeFrame towardZero 32767 demoSamples)) = Inr bytes
         \<and> int16View bytes = Some pcm \<and> length pcm = length demoSamples
         \<and> (\<forall>i < length demoSamples.
               \<bar>real_of_int (sint (pcm ! i)) / 32767 - demoSamples ! i\<bar> < 1 / 32767))"
proof -
  have s: "(0::real) < 32767" "(32767::real) \<le> 32767" by simp_all
  have r: "\<forall>y. \<bar>real_of_int (towardZero y) - y\<bar> < 1" by (simp add: towardZero_near)
  have b: "\<forall>x \<in> set demoSamples. \<bar>x\<bar> \<le> 1" by (simp add: demoSamples_def)
  have e: "blobData (encodeFrame towardZero 32767 demoSamples) = ''AAD/fwGA/z8=''"
    by (simp add: encodeFrame_def toInt16_def clampSample_def towardZero_def packLE_def
        sextetChar_def base64Alphabet_def demoSamples_def)
  from frame_roundtrip [OF s r b] e show ?thesis by blast
qed

end
